theory Spec2Isabelle
  imports Main "HOL-Library.AList"
begin

section \<open>JavaScript Map objects\<close>

text \<open>
  A JavaScript \<^verbatim>\<open>Map\<close> keeps its entries in insertion order; \<^verbatim>\<open>set\<close> on a key that is
  present overwrites the value in place, \<^verbatim>\<open>set\<close> on a new key appends the entry, and
  \<^verbatim>\<open>delete\<close> removes it. An association list with the operations of the theory
  \<open>AList\<close> behaves the same way: \<^const>\<open>AList.update\<close> is \<^verbatim>\<open>Map.prototype.set\<close>,
  \<^const>\<open>AList.delete\<close> is \<^verbatim>\<open>Map.prototype.delete\<close>, \<^const>\<open>map_of\<close> is
  \<^verbatim>\<open>Map.prototype.get\<close> (\<open>None\<close> is \<^verbatim>\<open>undefined\<close>).
\<close>

type_synonym ('k, 'v) js_map = "('k \<times> 'v) list"

definition Map_has :: "('k, 'v) js_map \<Rightarrow> 'k \<Rightarrow> bool" where
  "Map_has m k = (map_of m k \<noteq> None)"

definition Map_size :: "('k, 'v) js_map \<Rightarrow> int" where
  "Map_size m = int (length m)"


section \<open>src/memory-cache.js: class MemoryCache\<close>

text \<open>
  The fields of the class. Times (\<^verbatim>\<open>Date.now()\<close>, the TTLs and the expiry timestamps) are
  integers (milliseconds). The four counters of \<^verbatim>\<open>this.stats\<close> are fields of the record.
\<close>

record 'v MemoryCache =
  maxSize :: int
  ttl :: int
  cache :: "(string, 'v) js_map"
  expiry :: "(string, int) js_map"
  hits :: nat
  misses :: nat
  sets :: nat
  deletes :: nat

text \<open>
  The constructor: \<^verbatim>\<open>options.maxSize || 1000\<close> and \<^verbatim>\<open>options.ttl || 3600000\<close>; an option
  that is missing or \<open>0\<close> is falsy and gives the default.
\<close>

definition or_default :: "int option \<Rightarrow> int \<Rightarrow> int" where
  "or_default opt d = (case opt of None \<Rightarrow> d | Some n \<Rightarrow> if n = 0 then d else n)"

definition MemoryCache_new :: "int option \<Rightarrow> int option \<Rightarrow> 'v MemoryCache" where
  "MemoryCache_new opt_maxSize opt_ttl =
     \<lparr> maxSize = or_default opt_maxSize 1000, ttl = or_default opt_ttl 3600000,
       cache = [], expiry = [], hits = 0, misses = 0, sets = 0, deletes = 0 \<rparr>"

text \<open>\<^verbatim>\<open>delete(key)\<close>: the returned boolean and the cache after the call.\<close>

definition MemoryCache_delete :: "'v MemoryCache \<Rightarrow> string \<Rightarrow> bool \<times> 'v MemoryCache" where
  "MemoryCache_delete c key =
     (if Map_has (cache c) key
      then (True, c\<lparr> cache := AList.delete key (cache c),
                     expiry := AList.delete key (expiry c),
                     deletes := deletes c + 1 \<rparr>)
      else (False, c))"

text \<open>
  \<^verbatim>\<open>_evictOldest()\<close>. The loop over \<^verbatim>\<open>this.expiry.entries()\<close> carries \<^verbatim>\<open>oldestKey\<close>
  (\<open>None\<close> is \<^verbatim>\<open>null\<close>) and \<^verbatim>\<open>oldestTime\<close> (\<open>None\<close> is \<^verbatim>\<open>Infinity\<close>, above every
  timestamp). After the loop, \<^verbatim>\<open>if (oldestKey)\<close> tests the key for truthiness: \<^verbatim>\<open>null\<close>
  and the empty string are falsy.
\<close>

fun evict_scan :: "(string \<times> int) list \<Rightarrow> string option \<Rightarrow> int option \<Rightarrow> string option" where
  "evict_scan [] oldestKey oldestTime = oldestKey"
| "evict_scan ((key, expiryTime) # rest) oldestKey oldestTime =
     (if (case oldestTime of None \<Rightarrow> True | Some t \<Rightarrow> expiryTime < t)
      then evict_scan rest (Some key) (Some expiryTime)
      else evict_scan rest oldestKey oldestTime)"

definition truthy_key :: "string option \<Rightarrow> bool" where
  "truthy_key k = (case k of None \<Rightarrow> False | Some s \<Rightarrow> s \<noteq> [])"

definition MemoryCache_evictOldest :: "'v MemoryCache \<Rightarrow> 'v MemoryCache" where
  "MemoryCache_evictOldest c =
     (let oldestKey = evict_scan (expiry c) None None
      in if truthy_key oldestKey then snd (MemoryCache_delete c (the oldestKey)) else c)"

text \<open>
  \<^verbatim>\<open>set(key, value, ttl = this.ttl)\<close>; \<open>ttl_arg = None\<close> is the omitted argument and
  \<open>now\<close> is the value of \<^verbatim>\<open>Date.now()\<close>. The method always returns \<^verbatim>\<open>true\<close>, so the
  model returns the cache only.
\<close>

definition MemoryCache_set ::
  "'v MemoryCache \<Rightarrow> string \<Rightarrow> 'v \<Rightarrow> int option \<Rightarrow> int \<Rightarrow> 'v MemoryCache" where
  "MemoryCache_set c key val ttl_arg now =
     (let t = (case ttl_arg of None \<Rightarrow> ttl c | Some t \<Rightarrow> t);
          c1 = (if Map_size (cache c) \<ge> maxSize c \<and> \<not> Map_has (cache c) key
                then MemoryCache_evictOldest c else c)
      in c1\<lparr> cache := AList.update key val (cache c1),
              expiry := AList.update key (now + t) (expiry c1),
              sets := sets c1 + 1 \<rparr>)"

text \<open>
  The test \<^verbatim>\<open>expiryTime < Date.now()\<close> of \<^verbatim>\<open>get\<close> and \<^verbatim>\<open>has\<close>. A key without an
  expiry entry reads \<^verbatim>\<open>undefined\<close>, and \<^verbatim>\<open>undefined < n\<close> is false.
\<close>

definition is_expired :: "'v MemoryCache \<Rightarrow> string \<Rightarrow> int \<Rightarrow> bool" where
  "is_expired c key now =
     (case map_of (expiry c) key of None \<Rightarrow> False | Some expiryTime \<Rightarrow> expiryTime < now)"

text \<open>\<^verbatim>\<open>get(key)\<close>: the returned value (\<open>None\<close> is \<^verbatim>\<open>undefined\<close>) and the cache.\<close>

definition MemoryCache_get ::
  "'v MemoryCache \<Rightarrow> string \<Rightarrow> int \<Rightarrow> 'v option \<times> 'v MemoryCache" where
  "MemoryCache_get c key now =
     (if \<not> Map_has (cache c) key then (None, c\<lparr> misses := misses c + 1 \<rparr>)
      else if is_expired c key now
      then (let c1 = snd (MemoryCache_delete c key) in (None, c1\<lparr> misses := misses c1 + 1 \<rparr>))
      else (map_of (cache c) key, c\<lparr> hits := hits c + 1 \<rparr>))"

definition MemoryCache_has :: "'v MemoryCache \<Rightarrow> string \<Rightarrow> int \<Rightarrow> bool \<times> 'v MemoryCache" where
  "MemoryCache_has c key now =
     (if \<not> Map_has (cache c) key then (False, c)
      else if is_expired c key now then (False, snd (MemoryCache_delete c key))
      else (True, c))"

definition MemoryCache_clear :: "'v MemoryCache \<Rightarrow> 'v MemoryCache" where
  "MemoryCache_clear c =
     c\<lparr> cache := [], expiry := [], hits := 0, misses := 0, sets := 0, deletes := 0 \<rparr>"

text \<open>
  \<^verbatim>\<open>cleanup()\<close> iterates over \<^verbatim>\<open>this.expiry.entries()\<close> and deletes the visited key when it
  has expired. Deleting the entry under the iterator does not disturb the iteration of a
  JavaScript Map, so the loop visits the entries the expiry map had at the start.
\<close>

fun cleanup_loop :: "(string \<times> int) list \<Rightarrow> int \<Rightarrow> 'v MemoryCache \<Rightarrow> 'v MemoryCache" where
  "cleanup_loop [] now c = c"
| "cleanup_loop ((key, expiryTime) # rest) now c =
     cleanup_loop rest now (if expiryTime < now then snd (MemoryCache_delete c key) else c)"

definition MemoryCache_cleanup :: "'v MemoryCache \<Rightarrow> int \<Rightarrow> 'v MemoryCache" where
  "MemoryCache_cleanup c now = cleanup_loop (expiry c) now c"

text \<open>Sequences of calls on one cache; every call carries its own reading of the clock.\<close>

datatype 'v cache_op =
    OpSet string 'v "int option" int
  | OpGet string int
  | OpHas string int
  | OpDelete string
  | OpClear
  | OpCleanup int

fun cache_step :: "'v MemoryCache \<Rightarrow> 'v cache_op \<Rightarrow> 'v MemoryCache" where
  "cache_step c (OpSet k v t now) = MemoryCache_set c k v t now"
| "cache_step c (OpGet k now) = snd (MemoryCache_get c k now)"
| "cache_step c (OpHas k now) = snd (MemoryCache_has c k now)"
| "cache_step c (OpDelete k) = snd (MemoryCache_delete c k)"
| "cache_step c OpClear = MemoryCache_clear c"
| "cache_step c (OpCleanup now) = MemoryCache_cleanup c now"

definition cache_run :: "'v MemoryCache \<Rightarrow> 'v cache_op list \<Rightarrow> 'v MemoryCache" where
  "cache_run c ops = foldl cache_step c ops"

text \<open>The two maps list the same keys in the same order, each key once.\<close>

definition cache_aligned :: "'v MemoryCache \<Rightarrow> bool" where
  "cache_aligned c = (map fst (cache c) = map fst (expiry c) \<and> distinct (map fst (cache c)))"

text \<open>
  Two concrete caches. The first holds two entries, \<open>a\<close> set at time 0 with a TTL of
  10 ms and \<open>b\<close> with a TTL of 1000 ms. The second has capacity 1 and holds the empty
  string as its only key, as \<^verbatim>\<open>new MemoryCache({maxSize: 1})\<close> followed by
  \<^verbatim>\<open>set("", 7)\<close> at time 0 builds it.
\<close>

definition two_entries :: "nat MemoryCache" where
  "two_entries =
     MemoryCache_set (MemoryCache_set (MemoryCache_new None None) ''a'' 1 (Some 10) 0)
       ''b'' 2 (Some 1000) 0"

definition full_with_empty_key :: "nat MemoryCache" where
  "full_with_empty_key = MemoryCache_set (MemoryCache_new (Some 1) None) '''' 7 None 0"


section \<open>JavaScript values that JSON can carry\<close>

text \<open>
  Documents, queries, update patches and stored values are JSON data. Object properties
  are an association list in property order. Numbers are modelled by the integers
  (identifiers, ages, epoch milliseconds). A JSON value that may be missing is a
  \<open>json option\<close>, with \<open>None\<close> for \<^verbatim>\<open>undefined\<close>.
\<close>

datatype json =
    JNull
  | JBool bool
  | JNum int
  | JStr string
  | JArr "json list"
  | JObj "(string \<times> json) list"

type_synonym js_object = "(string \<times> json) list"

text \<open>Truthiness, as \<^verbatim>\<open>!x\<close>, \<^verbatim>\<open>x || y\<close> and \<^verbatim>\<open>if (x)\<close> test it.\<close>

fun truthy :: "json option \<Rightarrow> bool" where
  "truthy None = False"
| "truthy (Some JNull) = False"
| "truthy (Some (JBool b)) = b"
| "truthy (Some (JNum n)) = (n \<noteq> 0)"
| "truthy (Some (JStr s)) = (s \<noteq> [])"
| "truthy (Some (JArr xs)) = True"
| "truthy (Some (JObj fs)) = True"

definition js_or :: "json option \<Rightarrow> json option \<Rightarrow> json option" where
  "js_or a b = (if truthy a then a else b)"

text \<open>Decimal notation of a number, as string conversion prints an integer.\<close>

definition digit_char :: "nat \<Rightarrow> char" where
  "digit_char d = ''0123456789'' ! d"

fun string_of_nat :: "nat \<Rightarrow> string" where
  "string_of_nat n =
     (if n < 10 then [digit_char n] else string_of_nat (n div 10) @ [digit_char (n mod 10)])"

declare string_of_nat.simps [simp del]

definition string_of_int :: "int \<Rightarrow> string" where
  "string_of_int i = (if i < 0 then CHR ''-'' # string_of_nat (nat (- i)) else string_of_nat (nat i))"

text \<open>
  An array index is the canonical decimal notation of a number below the length:
  \<^verbatim>\<open>xs["1"]\<close> is the second element, \<^verbatim>\<open>xs["01"]\<close> is \<^verbatim>\<open>undefined\<close>.
\<close>

definition index_of_key :: "string \<Rightarrow> nat \<Rightarrow> nat option" where
  "index_of_key part len = List.find (\<lambda>i. string_of_nat i = part) [0..<len]"

text \<open>
  The own properties of a value that is neither \<^verbatim>\<open>null\<close> nor \<^verbatim>\<open>undefined\<close>: the
  properties of an object, the elements and the length of an array, the characters and
  the length of a string; numbers and booleans have none.
\<close>

fun own_prop :: "json \<Rightarrow> string \<Rightarrow> json option" where
  "own_prop (JObj fs) part = map_of fs part"
| "own_prop (JArr xs) part =
     (if part = ''length'' then Some (JNum (int (length xs)))
      else map_option (\<lambda>i. xs ! i) (index_of_key part (length xs)))"
| "own_prop (JStr s) part =
     (if part = ''length'' then Some (JNum (int (length s)))
      else map_option (\<lambda>i. JStr [s ! i]) (index_of_key part (length s)))"
| "own_prop _ part = None"

text \<open>
  A property read \<^verbatim>\<open>value[part]\<close> that finds no own property goes on along the prototype
  chain, into the objects of the JavaScript runtime: \<^verbatim>\<open>({}).constructor\<close> is the function
  \<^verbatim>\<open>Object\<close>, and \<^verbatim>\<open>({}).constructor.name\<close> is the string \<^verbatim>\<open>"Object"\<close>. These objects are
  not part of the program. The model takes them as a parameter: a runtime gives, for a
  JSON value and a name that is not an own property, the inherited property, and for one
  of its own objects (of the type \<open>'b\<close>) and a name, the property of that object. A read
  yields \<^verbatim>\<open>undefined\<close>, a JSON value or a runtime object; \<open>None\<close> stands for a read that
  throws, as an accessor may. The theorems hold for every runtime; the examples are
  evaluated in a fragment of the standard one.
\<close>

datatype 'b js_value = Undefined | Data json | Builtin 'b

record 'b runtime =
  inherited :: "json \<Rightarrow> string \<Rightarrow> 'b js_value option"
  builtin_prop :: "'b \<Rightarrow> string \<Rightarrow> 'b js_value option"

text \<open>
  \<^verbatim>\<open>value[part]\<close> for a JSON value: reading a property of \<^verbatim>\<open>null\<close> throws; otherwise the
  own property, and without one the inherited property.
\<close>

definition get_prop :: "'b runtime \<Rightarrow> json \<Rightarrow> string \<Rightarrow> 'b js_value option" where
  "get_prop rt v part =
     (case v of
        JNull \<Rightarrow> None
      | _ \<Rightarrow> (case own_prop v part of
                Some x \<Rightarrow> Some (Data x)
              | None \<Rightarrow> inherited rt v part))"

text \<open>\<^verbatim>\<open>value[part]\<close> for any value; reading a property of \<^verbatim>\<open>undefined\<close> throws.\<close>

fun read_prop :: "'b runtime \<Rightarrow> 'b js_value \<Rightarrow> string \<Rightarrow> 'b js_value option" where
  "read_prop rt Undefined part = None"
| "read_prop rt (Data v) part = get_prop rt v part"
| "read_prop rt (Builtin b) part = builtin_prop rt b part"

text \<open>
  Strict equality \<^verbatim>\<open>value === query[key]\<close> of a value that was read with a value of the
  query, which is JSON data. Primitives compare by value. Objects and arrays compare by
  reference: a document parsed from its file or an object of the runtime is never the
  object the caller put in the query, so the comparison with an object or array is false.
\<close>

fun strict_eq :: "'b js_value \<Rightarrow> json \<Rightarrow> bool" where
  "strict_eq (Data JNull) JNull = True"
| "strict_eq (Data (JBool a)) (JBool b) = (a = b)"
| "strict_eq (Data (JNum a)) (JNum b) = (a = b)"
| "strict_eq (Data (JStr a)) (JStr b) = (a = b)"
| "strict_eq _ _ = False"

fun is_primitive :: "json \<Rightarrow> bool" where
  "is_primitive (JArr xs) = False"
| "is_primitive (JObj fs) = False"
| "is_primitive _ = True"

text \<open>Template conversion \<^verbatim>\<open>`${x}`\<close> of a value to a string.\<close>

fun join_comma :: "string list \<Rightarrow> string" where
  "join_comma [] = []"
| "join_comma [s] = s"
| "join_comma (s # t # rest) = s @ '','' @ join_comma (t # rest)"

fun js_string :: "json \<Rightarrow> string" where
  "js_string JNull = ''null''"
| "js_string (JBool b) = (if b then ''true'' else ''false'')"
| "js_string (JNum n) = string_of_int n"
| "js_string (JStr s) = s"
| "js_string (JArr xs) = join_comma (map (\<lambda>x. if x = JNull then [] else js_string x) xs)"
| "js_string (JObj fs) = ''[object Object]''"

definition template_string :: "json option \<Rightarrow> string" where
  "template_string v = (case v of None \<Rightarrow> ''undefined'' | Some x \<Rightarrow> js_string x)"

text \<open>
  Object spread \<^verbatim>\<open>{...x}\<close>: the own enumerable properties of \<open>x\<close>. An object gives its
  properties, an array its elements under their indices, a string its characters, and
  \<^verbatim>\<open>null\<close>, numbers and booleans give none. \<^verbatim>\<open>{...a, ...b}\<close> writes the properties of
  \<open>b\<close> over those of \<open>a\<close>: a key that is present keeps its place and takes the new value,
  a new key is appended. (JavaScript lists keys that look like array indices before the
  others; the statements below read properties by name and do not depend on that.)
\<close>

fun spread :: "json \<Rightarrow> js_object" where
  "spread (JObj fs) = fs"
| "spread (JArr xs) = map (\<lambda>i. (string_of_nat i, xs ! i)) [0..<length xs]"
| "spread (JStr s) = map (\<lambda>i. (string_of_nat i, JStr [s ! i])) [0..<length s]"
| "spread _ = []"

definition assign_all :: "js_object \<Rightarrow> js_object \<Rightarrow> js_object" where
  "assign_all target source = foldl (\<lambda>acc (k, v). AList.update k v acc) target source"


section \<open>src/utils.js: matches and normalizeName\<close>

text \<open>\<^verbatim>\<open>key.split('.')\<close>: the pieces between the dots, empty pieces included.\<close>

fun split_on :: "char \<Rightarrow> string \<Rightarrow> string \<Rightarrow> string list" where
  "split_on sep [] piece = [piece]"
| "split_on sep (c # cs) piece =
     (if c = sep then piece # split_on sep cs [] else split_on sep cs (piece @ [c]))"

definition split_dots :: "string \<Rightarrow> string list" where
  "split_dots key = split_on CHR ''.'' key []"

text \<open>
  The inner loop of \<^verbatim>\<open>matches\<close> over the parts of a dotted key, with its three ways
  out: the early \<^verbatim>\<open>return false\<close> taken when the value reached so far is \<^verbatim>\<open>undefined\<close>
  or \<^verbatim>\<open>null\<close>, a property read that throws, and the value after the last part.
\<close>

datatype 'b walked = ReturnFalse | Throws | Reached "'b js_value"

fun walk_parts :: "'b runtime \<Rightarrow> string list \<Rightarrow> 'b js_value \<Rightarrow> 'b walked" where
  "walk_parts rt [] val = Reached val"
| "walk_parts rt (part # parts) val =
     (case val of
        Undefined \<Rightarrow> ReturnFalse
      | Data JNull \<Rightarrow> ReturnFalse
      | _ \<Rightarrow> (case read_prop rt val part of
                None \<Rightarrow> Throws
              | Some v \<Rightarrow> walk_parts rt parts v))"

text \<open>
  One round of the loop \<^verbatim>\<open>for (const key in query)\<close>: \<open>Some False\<close> is
  \<^verbatim>\<open>return false\<close>, \<open>Some True\<close> lets the loop go on, \<open>None\<close> is a property read that
  throws. \<open>qv\<close> is \<^verbatim>\<open>query[key]\<close>. (The loop visits the own properties of the query; the
  standard prototypes have no enumerable property.)
\<close>

definition key_matches :: "'b runtime \<Rightarrow> json \<Rightarrow> string \<Rightarrow> json \<Rightarrow> bool option" where
  "key_matches rt obj key qv =
     (if CHR ''.'' \<in> set key
      then (case walk_parts rt (split_dots key) (Data obj) of
              ReturnFalse \<Rightarrow> Some False
            | Throws \<Rightarrow> None
            | Reached val \<Rightarrow> Some (strict_eq val qv))
      else (case get_prop rt obj key of
              None \<Rightarrow> None
            | Some val \<Rightarrow> Some (strict_eq val qv)))"

fun matches_loop :: "'b runtime \<Rightarrow> json \<Rightarrow> js_object \<Rightarrow> bool option" where
  "matches_loop rt obj [] = Some True"
| "matches_loop rt obj ((key, qv) # rest) =
     (case key_matches rt obj key qv of
        None \<Rightarrow> None
      | Some False \<Rightarrow> Some False
      | Some True \<Rightarrow> matches_loop rt obj rest)"

text \<open>
  \<^verbatim>\<open>matches(obj, query)\<close>: \<open>Some\<close> of the returned boolean, or \<open>None\<close> when a property
  read throws. Either argument may be \<^verbatim>\<open>undefined\<close> (\<open>None\<close>) or \<^verbatim>\<open>null\<close>; the guard
  \<^verbatim>\<open>if (!obj || !query) return false\<close> comes first. A query that is given is an object,
  and an object is truthy.
\<close>

definition matches :: "'b runtime \<Rightarrow> json option \<Rightarrow> js_object option \<Rightarrow> bool option" where
  "matches rt obj query =
     (if \<not> truthy obj \<or> query = None then Some False
      else matches_loop rt (the obj) (the query))"

text \<open>
  The check of one query key in the words of the specification, to compare
  \<^verbatim>\<open>matches\<close> with. A key with a dot walks the document through successive
  nested-field lookups, and an intermediate value that is absent (\<^verbatim>\<open>undefined\<close> or
  \<^verbatim>\<open>null\<close>) makes the value at the end of the path absent; a key without a dot looks
  the document's property up. The key holds when the lookup does not throw and the
  value found is strictly equal to the query's value: the same primitive value.
\<close>

fun nested_lookup :: "'b runtime \<Rightarrow> 'b js_value \<Rightarrow> string list \<Rightarrow> 'b js_value option" where
  "nested_lookup rt val [] = Some val"
| "nested_lookup rt Undefined (part # parts) = Some Undefined"
| "nested_lookup rt (Data JNull) (part # parts) = Some Undefined"
| "nested_lookup rt val (part # parts) =
     Option.bind (read_prop rt val part) (\<lambda>v. nested_lookup rt v parts)"



text \<open>
  \<^verbatim>\<open>normalizeName(name)\<close>: every character outside \<^verbatim>\<open>[a-zA-Z0-9_-]\<close> becomes \<^verbatim>\<open>_\<close>, then
  the name is put in lower case.
\<close>

definition name_char :: "char \<Rightarrow> bool" where
  "name_char c =
     (c \<in> set ''abcdefghijklmnopqrstuvwxyzABCDEFGHIJKLMNOPQRSTUVWXYZ0123456789_-'')"

definition lower_char :: "char \<Rightarrow> char" where
  "lower_char c =
     (case map_of (zip ''ABCDEFGHIJKLMNOPQRSTUVWXYZ'' ''abcdefghijklmnopqrstuvwxyz'') c of
        None \<Rightarrow> c
      | Some l \<Rightarrow> l)"

definition normalizeName :: "string \<Rightarrow> string" where
  "normalizeName name = map (\<lambda>c. lower_char (if name_char c then c else CHR ''_'')) name"


section \<open>The file system, as the adapters use it\<close>

text \<open>
  The adapters reach the disk through Node's \<^verbatim>\<open>path.join\<close>, \<^verbatim>\<open>fs.existsSync\<close>,
  \<^verbatim>\<open>fs.mkdirSync\<close>, \<^verbatim>\<open>fs.writeFileSync\<close>, \<^verbatim>\<open>fs.readFileSync\<close>, \<^verbatim>\<open>fs.readdirSync\<close> and
  \<^verbatim>\<open>fs.unlinkSync\<close>. A path is the list of its segments from the root (POSIX separators),
  already normalised. The disk is the list of its directories and the list of its files.
  Every file the adapters write holds \<^verbatim>\<open>JSON.stringify\<close> of a value and is read back with
  \<^verbatim>\<open>JSON.parse\<close>; the model keeps the value itself as the file's content, \<open>Some v\<close>, and
  \<open>None\<close> stands for a file whose text \<^verbatim>\<open>JSON.parse\<close> rejects. An operation that throws
  returns \<open>None\<close>. Limits of the operating system (name length, permissions, a full
  disk) are not modelled.
\<close>

type_synonym path = "string list"

type_synonym file_content = "json option"

record filesystem =
  fs_dirs :: "path list"
  fs_files :: "(path \<times> file_content) list"

text \<open>
  \<^verbatim>\<open>path.join(base, name)\<close> for a normalised absolute \<open>base\<close>: the segments of \<open>name\<close> are
  applied in turn; an empty segment and \<^verbatim>\<open>.\<close> are dropped, \<^verbatim>\<open>..\<close> removes the last segment.
\<close>

fun apply_segment :: "path \<Rightarrow> string \<Rightarrow> path" where
  "apply_segment p seg =
     (if seg = [] \<or> seg = ''.'' then p
      else if seg = ''..'' then butlast p
      else p @ [seg])"

definition path_join :: "path \<Rightarrow> string \<Rightarrow> path" where
  "path_join base name = foldl apply_segment base (split_on CHR ''/'' name [])"

definition is_dir :: "filesystem \<Rightarrow> path \<Rightarrow> bool" where
  "is_dir disk p = (p = [] \<or> p \<in> set (fs_dirs disk))"

definition is_file :: "filesystem \<Rightarrow> path \<Rightarrow> bool" where
  "is_file disk p = (\<not> is_dir disk p \<and> map_of (fs_files disk) p \<noteq> None)"

definition existsSync :: "filesystem \<Rightarrow> path \<Rightarrow> bool" where
  "existsSync disk p = (is_dir disk p \<or> is_file disk p)"

text \<open>
  \<^verbatim>\<open>mkdirSync(p, {recursive: true})\<close> creates the directory and its missing ancestors; it
  throws when the path or an ancestor is a file.
\<close>

definition ancestors :: "path \<Rightarrow> path list" where
  "ancestors p = map (\<lambda>n. take n p) [1..<Suc (length p)]"

definition mkdirSync :: "filesystem \<Rightarrow> path \<Rightarrow> filesystem option" where
  "mkdirSync disk p =
     (if list_ex (is_file disk) (ancestors p) then None
      else Some (disk\<lparr> fs_dirs := fs_dirs disk @ filter (\<lambda>q. \<not> is_dir disk q) (ancestors p) \<rparr>))"

text \<open>
  \<^verbatim>\<open>writeFileSync(p, JSON.stringify(v))\<close> creates the file or replaces its content; it throws
  when the path is a directory or its parent directory does not exist.
\<close>

definition writeFileSync :: "filesystem \<Rightarrow> path \<Rightarrow> json \<Rightarrow> filesystem option" where
  "writeFileSync disk p v =
     (if is_dir disk p \<or> \<not> is_dir disk (butlast p) then None
      else Some (disk\<lparr> fs_files := AList.update p (Some v) (fs_files disk) \<rparr>))"

text \<open>\<^verbatim>\<open>readFileSync(p)\<close> throws when the path is not a file.\<close>

definition readFileSync :: "filesystem \<Rightarrow> path \<Rightarrow> file_content option" where
  "readFileSync disk p = (if is_file disk p then map_of (fs_files disk) p else None)"

text \<open>
  \<^verbatim>\<open>JSON.parse(readFileSync(p))\<close>: \<open>None\<close> when the read or the parse throws, else the
  parsed value.
\<close>

definition read_json :: "filesystem \<Rightarrow> path \<Rightarrow> json option" where
  "read_json disk p = (case readFileSync disk p of None \<Rightarrow> None | Some content \<Rightarrow> content)"

definition unlinkSync :: "filesystem \<Rightarrow> path \<Rightarrow> filesystem option" where
  "unlinkSync disk p =
     (if is_file disk p then Some (disk\<lparr> fs_files := AList.delete p (fs_files disk) \<rparr>)
      else None)"

text \<open>
  \<^verbatim>\<open>readdirSync(d)\<close>: the names of the entries of the directory, files before
  directories, each group in the order of the disk; it throws when \<open>d\<close> is not a directory.
\<close>

definition entries_in :: "path \<Rightarrow> path list \<Rightarrow> string list" where
  "entries_in d ps = map last (filter (\<lambda>p. p \<noteq> [] \<and> butlast p = d) ps)"

definition readdirSync :: "filesystem \<Rightarrow> path \<Rightarrow> string list option" where
  "readdirSync disk d =
     (if is_dir disk d
      then Some (entries_in d (filter (\<lambda>p. \<not> is_dir disk p) (map fst (fs_files disk)))
                 @ entries_in d (fs_dirs disk))
      else None)"

definition endsWith :: "string \<Rightarrow> string \<Rightarrow> bool" where
  "endsWith s suffix = (length suffix \<le> length s \<and> drop (length s - length suffix) s = suffix)"

definition empty_disk :: filesystem where
  "empty_disk = \<lparr> fs_dirs = [], fs_files = [] \<rparr>"


section \<open>The file-backed adapter: class FileStoreAdapter\<close>

text \<open>
  The state of an adapter: its database directory (\<^verbatim>\<open>path.resolve(config.path)\<close>), the flag
  \<^verbatim>\<open>connected\<close>, the set \<^verbatim>\<open>collections\<close> in insertion order, and the disk it works on.
  The members of \<^verbatim>\<open>collections\<close> are JSON values, since \<^verbatim>\<open>connect\<close> loads them from a
  file; the adapter itself only adds strings.
\<close>

record FileStoreAdapter =
  dbDir :: path
  connected :: bool
  collections :: "json list"
  disk :: filesystem

definition keyValueDir :: "FileStoreAdapter \<Rightarrow> path" where
  "keyValueDir a = dbDir a @ [''keyvalue'']"

definition collectionsDir :: "FileStoreAdapter \<Rightarrow> path" where
  "collectionsDir a = dbDir a @ [''collections'']"

definition collectionsListFile :: "FileStoreAdapter \<Rightarrow> path" where
  "collectionsListFile a = dbDir a @ [''collections.json'']"

text \<open>The constructor, on a given disk.\<close>

definition FileStoreAdapter_new :: "path \<Rightarrow> filesystem \<Rightarrow> FileStoreAdapter" where
  "FileStoreAdapter_new dir d = \<lparr> dbDir = dir, connected = False, collections = [], disk = d \<rparr>"

text \<open>
  The only error that leaves an adapter method: \<^verbatim>\<open>_ensureConnected\<close> throws
  \<^verbatim>\<open>Error('Not connected to FileStore database')\<close> before the method's \<^verbatim>\<open>try\<close> block.
  Everything thrown inside the \<^verbatim>\<open>try\<close> block is caught there and turned into the
  method's failure value, also the error of a nested call to \<^verbatim>\<open>createCollection\<close> or
  \<^verbatim>\<open>find\<close>. A method returns \<open>Inl NotConnected\<close> for the throw, and \<open>Inr\<close> of its
  result otherwise; a method that writes returns the adapter after the call next to its
  result.
\<close>

datatype error = NotConnected

text \<open>
  \<^verbatim>\<open>new Set(array)\<close> and \<^verbatim>\<open>Set.prototype.add\<close>: a primitive that is already a member is
  not added again; objects and arrays are members by reference, so a parsed one is new.
\<close>

definition Set_add :: "json list \<Rightarrow> json \<Rightarrow> json list" where
  "Set_add s x = (if is_primitive x \<and> x \<in> set s then s else s @ [x])"

text \<open>
  The value \<^verbatim>\<open>new Set(collectionsArray)\<close> of \<^verbatim>\<open>connect\<close>: the elements of an array, the
  characters of a string, nothing for \<^verbatim>\<open>null\<close>; any other parsed value is not iterable
  and the constructor throws (\<open>None\<close>).
\<close>

fun Set_of_json :: "json \<Rightarrow> json list option" where
  "Set_of_json (JArr xs) = Some (foldl Set_add [] xs)"
| "Set_of_json (JStr s) = Some (foldl Set_add [] (map (\<lambda>c. JStr [c]) s))"
| "Set_of_json JNull = Some []"
| "Set_of_json _ = None"

text \<open>
  \<^verbatim>\<open>if (!fs.existsSync(dir)) fs.mkdirSync(dir, {recursive: true})\<close>; \<open>None\<close> when
  \<^verbatim>\<open>mkdirSync\<close> throws.
\<close>

definition ensure_dir :: "filesystem \<Rightarrow> path \<Rightarrow> filesystem option" where
  "ensure_dir d p = (if existsSync d p then Some d else mkdirSync d p)"

text \<open>
  The loop of \<^verbatim>\<open>connect\<close> that makes sure every loaded collection has its directory;
  the boolean is false when the loop throws, as \<^verbatim>\<open>mkdirSync\<close> may and as
  \<^verbatim>\<open>normalizeName\<close> of a member that is not a string does.
\<close>

fun ensure_collection_dirs :: "path \<Rightarrow> json list \<Rightarrow> filesystem \<Rightarrow> bool \<times> filesystem" where
  "ensure_collection_dirs cdir [] d = (True, d)"
| "ensure_collection_dirs cdir (JStr name # rest) d =
     (case ensure_dir d (path_join cdir (normalizeName name)) of
        None \<Rightarrow> (False, d)
      | Some d1 \<Rightarrow> ensure_collection_dirs cdir rest d1)"
| "ensure_collection_dirs cdir (other # rest) d = (False, d)"

text \<open>
  The inner \<^verbatim>\<open>try\<close> block of \<^verbatim>\<open>connect\<close>, entered when the collections list file exists.
  The directories made before a throw stay on the disk, and \<^verbatim>\<open>this.collections\<close> keeps the
  loaded set once it has been assigned. The result is \<open>(threw, collections, disk)\<close>.
\<close>

definition load_collections ::
  "FileStoreAdapter \<Rightarrow> filesystem \<Rightarrow> bool \<times> json list \<times> filesystem" where
  "load_collections a d =
     (case read_json d (collectionsListFile a) of
        None \<Rightarrow> (True, collections a, d)
      | Some parsed \<Rightarrow>
          (case Set_of_json parsed of
             None \<Rightarrow> (True, collections a, d)
           | Some loaded \<Rightarrow>
               (let (done, d1) = ensure_collection_dirs (collectionsDir a) loaded d
                in (\<not> done, loaded, d1))))"

text \<open>
  \<^verbatim>\<open>connect()\<close>: the returned boolean and the adapter. A throw in the outer \<^verbatim>\<open>try\<close> block
  returns \<^verbatim>\<open>false\<close> and leaves \<^verbatim>\<open>connected\<close> as it was.
\<close>

definition FileStore_connect :: "FileStoreAdapter \<Rightarrow> bool \<times> FileStoreAdapter" where
  "FileStore_connect a =
     (case ensure_dir (disk a) (dbDir a) of
        None \<Rightarrow> (False, a)
      | Some d1 \<Rightarrow>
     (case ensure_dir d1 (keyValueDir a) of
        None \<Rightarrow> (False, a\<lparr> disk := d1 \<rparr>)
      | Some d2 \<Rightarrow>
     (case ensure_dir d2 (collectionsDir a) of
        None \<Rightarrow> (False, a\<lparr> disk := d2 \<rparr>)
      | Some d3 \<Rightarrow>
     (if existsSync d3 (collectionsListFile a)
      then (let (threw, colls, d4) = load_collections a d3 in
            if threw
            then (case writeFileSync d4 (collectionsListFile a) (JArr []) of
                    None \<Rightarrow> (False, a\<lparr> collections := colls, disk := d4 \<rparr>)
                  | Some d5 \<Rightarrow> (True, a\<lparr> connected := True, collections := colls, disk := d5 \<rparr>))
            else (True, a\<lparr> connected := True, collections := colls, disk := d4 \<rparr>))
      else (case writeFileSync d3 (collectionsListFile a) (JArr []) of
              None \<Rightarrow> (False, a\<lparr> disk := d3 \<rparr>)
            | Some d4 \<Rightarrow> (True, a\<lparr> connected := True, disk := d4 \<rparr>))))))"

text \<open>\<^verbatim>\<open>close()\<close> clears the flag and returns \<^verbatim>\<open>true\<close>.\<close>

definition FileStore_close :: "FileStoreAdapter \<Rightarrow> bool \<times> FileStoreAdapter" where
  "FileStore_close a = (True, a\<lparr> connected := False \<rparr>)"

text \<open>The path \<^verbatim>\<open>path.join(this.keyValueDir, `${key}.json`)\<close> of a key.\<close>

definition key_path :: "FileStoreAdapter \<Rightarrow> string \<Rightarrow> path" where
  "key_path a key = path_join (keyValueDir a) (key @ ''.json'')"

definition FileStore_set ::
  "FileStoreAdapter \<Rightarrow> string \<Rightarrow> json \<Rightarrow> error + bool \<times> FileStoreAdapter" where
  "FileStore_set a key val =
     (if \<not> connected a then Inl NotConnected
      else case writeFileSync (disk a) (key_path a key) val of
             None \<Rightarrow> Inr (False, a)
           | Some d \<Rightarrow> Inr (True, a\<lparr> disk := d \<rparr>))"

text \<open>\<^verbatim>\<open>get(key)\<close> returns the parsed value, or \<^verbatim>\<open>null\<close> when the file is missing or the read throws.\<close>

definition FileStore_get :: "FileStoreAdapter \<Rightarrow> string \<Rightarrow> error + json" where
  "FileStore_get a key =
     (if \<not> connected a then Inl NotConnected
      else if \<not> existsSync (disk a) (key_path a key) then Inr JNull
      else case read_json (disk a) (key_path a key) of
             None \<Rightarrow> Inr JNull
           | Some v \<Rightarrow> Inr v)"

definition FileStore_has :: "FileStoreAdapter \<Rightarrow> string \<Rightarrow> error + bool" where
  "FileStore_has a key =
     (if \<not> connected a then Inl NotConnected
      else Inr (existsSync (disk a) (key_path a key)))"

definition FileStore_delete ::
  "FileStoreAdapter \<Rightarrow> string \<Rightarrow> error + bool \<times> FileStoreAdapter" where
  "FileStore_delete a key =
     (if \<not> connected a then Inl NotConnected
      else if \<not> existsSync (disk a) (key_path a key) then Inr (False, a)
      else case unlinkSync (disk a) (key_path a key) of
             None \<Rightarrow> Inr (False, a)
           | Some d \<Rightarrow> Inr (True, a\<lparr> disk := d \<rparr>))"

text \<open>\<^verbatim>\<open>getCollections()\<close>: one object \<^verbatim>\<open>{name}\<close> for each member of the set.\<close>

definition FileStore_getCollections :: "FileStoreAdapter \<Rightarrow> error + json list" where
  "FileStore_getCollections a =
     (if \<not> connected a then Inl NotConnected
      else Inr (map (\<lambda>name. JObj [(''name'', name)]) (collections a)))"

text \<open>
  \<^verbatim>\<open>createCollection(name)\<close>. The name is added to the set before the list file is
  written, so a write that throws leaves the name in the set and returns \<^verbatim>\<open>false\<close>.
\<close>

definition collection_dir :: "FileStoreAdapter \<Rightarrow> string \<Rightarrow> path" where
  "collection_dir a normalizedName = path_join (collectionsDir a) normalizedName"

definition FileStore_createCollection ::
  "FileStoreAdapter \<Rightarrow> string \<Rightarrow> error + bool \<times> FileStoreAdapter" where
  "FileStore_createCollection a name =
     (if \<not> connected a then Inl NotConnected
      else let normalizedName = normalizeName name in
        case ensure_dir (disk a) (collection_dir a normalizedName) of
          None \<Rightarrow> Inr (False, a)
        | Some d1 \<Rightarrow>
            if JStr normalizedName \<notin> set (collections a)
            then (let colls = Set_add (collections a) (JStr normalizedName) in
                  case writeFileSync d1 (collectionsListFile a) (JArr colls) of
                    None \<Rightarrow> Inr (False, a\<lparr> collections := colls, disk := d1 \<rparr>)
                  | Some d2 \<Rightarrow> Inr (True, a\<lparr> collections := colls, disk := d2 \<rparr>))
            else Inr (True, a\<lparr> disk := d1 \<rparr>))"

text \<open>
  The path \<^verbatim>\<open>path.join(this.collectionsDir, normalizedName, `${id}.json`)\<close> of a document.
\<close>

definition doc_path :: "FileStoreAdapter \<Rightarrow> string \<Rightarrow> json option \<Rightarrow> path" where
  "doc_path a normalizedName ident =
     path_join (collection_dir a normalizedName) (template_string ident @ ''.json'')"

text \<open>
  The document \<^verbatim>\<open>insert\<close> writes: a copy of the argument, with \<^verbatim>\<open>id\<close> set to the generated
  identifier when neither \<^verbatim>\<open>id\<close> nor \<^verbatim>\<open>_id\<close> is truthy, and with both timestamps set to
  the clock. \<open>generated\<close> is the string \<^verbatim>\<open>generateId()\<close> returned and \<open>now\<close> the value of
  \<^verbatim>\<open>Date.now()\<close>.
\<close>

definition with_id :: "js_object \<Rightarrow> string \<Rightarrow> js_object" where
  "with_id document generated =
     (if \<not> truthy (map_of document ''id'') \<and> \<not> truthy (map_of document ''_id'')
      then AList.update ''id'' (JStr generated) document
      else document)"

definition id_of :: "js_object \<Rightarrow> json option" where
  "id_of doc = js_or (map_of doc ''id'') (map_of doc ''_id'')"

definition stamped :: "js_object \<Rightarrow> int \<Rightarrow> js_object" where
  "stamped docWithId now =
     AList.update ''updated_at'' (JNum now) (AList.update ''created_at'' (JNum now) docWithId)"

definition FileStore_insert ::
  "FileStoreAdapter \<Rightarrow> string \<Rightarrow> js_object \<Rightarrow> string \<Rightarrow> int
     \<Rightarrow> error + bool \<times> FileStoreAdapter" where
  "FileStore_insert a collection document generated now =
     (if \<not> connected a then Inl NotConnected
      else let normalizedName = normalizeName collection in
        case FileStore_createCollection a normalizedName of
          Inl e \<Rightarrow> Inr (False, a)
        | Inr (created, a1) \<Rightarrow>
            (let docWithId = with_id document generated;
                 ident = id_of docWithId;
                 docPath = doc_path a1 normalizedName ident
             in case writeFileSync (disk a1) docPath (JObj (stamped docWithId now)) of
                  None \<Rightarrow> Inr (False, a1)
                | Some d \<Rightarrow> Inr (True, a1\<lparr> disk := d \<rparr>)))"

text \<open>
  The scan of \<^verbatim>\<open>findOne\<close> over the names \<^verbatim>\<open>readdirSync\<close> returned: the first document
  of a \<^verbatim>\<open>.json\<close> file that \<^verbatim>\<open>matches\<close> accepts. \<open>None\<close> when a read, a parse or
  \<^verbatim>\<open>matches\<close> throws.
\<close>

fun findOne_scan ::
  "'b runtime \<Rightarrow> filesystem \<Rightarrow> path \<Rightarrow> js_object option \<Rightarrow> string list \<Rightarrow> json option" where
  "findOne_scan rt d dir query [] = Some JNull"
| "findOne_scan rt d dir query (file # files) =
     (if endsWith file ''.json''
      then (case read_json d (path_join dir file) of
              None \<Rightarrow> None
            | Some doc \<Rightarrow>
                (case matches rt (Some doc) query of
                   None \<Rightarrow> None
                 | Some True \<Rightarrow> Some doc
                 | Some False \<Rightarrow> findOne_scan rt d dir query files))
      else findOne_scan rt d dir query files)"

text \<open>
  The part of \<^verbatim>\<open>findOne\<close> after the direct read: \<^verbatim>\<open>readdirSync\<close> and the scan. A throw
  is caught by \<^verbatim>\<open>findOne\<close> and gives \<^verbatim>\<open>null\<close>.
\<close>

definition findOne_full_scan ::
  "'b runtime \<Rightarrow> FileStoreAdapter \<Rightarrow> string \<Rightarrow> js_object option \<Rightarrow> json" where
  "findOne_full_scan rt a normalizedName query =
     (case readdirSync (disk a) (collection_dir a normalizedName) of
        None \<Rightarrow> JNull
      | Some files \<Rightarrow>
          (case findOne_scan rt (disk a) (collection_dir a normalizedName) query files of
             None \<Rightarrow> JNull
           | Some r \<Rightarrow> r))"

text \<open>
  \<^verbatim>\<open>findOne(collection, query)\<close>. A query that is \<^verbatim>\<open>undefined\<close> makes \<^verbatim>\<open>query.id\<close> throw
  inside the \<^verbatim>\<open>try\<close> block, which gives \<^verbatim>\<open>null\<close>. When \<^verbatim>\<open>query.id || query._id\<close> is
  truthy the document file of that identifier is read and returned as it is. (The fixed
  names \<^verbatim>\<open>id\<close> and \<^verbatim>\<open>_id\<close>, which the adapter reads from queries and documents, are
  properties of no standard prototype: these reads find an own property or \<^verbatim>\<open>undefined\<close>.)
\<close>

definition FileStore_findOne ::
  "'b runtime \<Rightarrow> FileStoreAdapter \<Rightarrow> string \<Rightarrow> js_object option \<Rightarrow> error + json" where
  "FileStore_findOne rt a collection query =
     (if \<not> connected a then Inl NotConnected
      else let normalizedName = normalizeName collection in
        if JStr normalizedName \<notin> set (collections a) then Inr JNull
        else case query of
          None \<Rightarrow> Inr JNull
        | Some q \<Rightarrow>
            if truthy (js_or (map_of q ''id'') (map_of q ''_id''))
            then (let docPath = doc_path a normalizedName (id_of q) in
                  if existsSync (disk a) docPath
                  then (case read_json (disk a) docPath of
                          None \<Rightarrow> Inr JNull
                        | Some doc \<Rightarrow> Inr doc)
                  else Inr JNull)
            else Inr (findOne_full_scan rt a normalizedName query))"

text \<open>
  The loop of \<^verbatim>\<open>find\<close>: every document of a \<^verbatim>\<open>.json\<close> file is kept when the query is
  missing or empty or \<^verbatim>\<open>matches\<close> accepts the document. \<open>None\<close> when a read, a parse or
  \<^verbatim>\<open>matches\<close> throws.
\<close>

definition find_accepts :: "'b runtime \<Rightarrow> js_object option \<Rightarrow> json \<Rightarrow> bool option" where
  "find_accepts rt query doc =
     (if query = None \<or> query = Some [] then Some True else matches rt (Some doc) query)"

fun find_scan ::
  "'b runtime \<Rightarrow> filesystem \<Rightarrow> path \<Rightarrow> js_object option \<Rightarrow> string list
     \<Rightarrow> json list option" where
  "find_scan rt d dir query [] = Some []"
| "find_scan rt d dir query (file # files) =
     (if endsWith file ''.json''
      then (case read_json d (path_join dir file) of
              None \<Rightarrow> None
            | Some doc \<Rightarrow>
                (case find_accepts rt query doc of
                   None \<Rightarrow> None
                 | Some keep \<Rightarrow>
                     (case find_scan rt d dir query files of
                        None \<Rightarrow> None
                      | Some documents \<Rightarrow>
                          Some (if keep then doc # documents else documents))))
      else find_scan rt d dir query files)"

definition FileStore_find ::
  "'b runtime \<Rightarrow> FileStoreAdapter \<Rightarrow> string \<Rightarrow> js_object option \<Rightarrow> error + json list" where
  "FileStore_find rt a collection query =
     (if \<not> connected a then Inl NotConnected
      else let normalizedName = normalizeName collection in
        if JStr normalizedName \<notin> set (collections a) then Inr []
        else case readdirSync (disk a) (collection_dir a normalizedName) of
          None \<Rightarrow> Inr []
        | Some files \<Rightarrow>
            (case find_scan rt (disk a) (collection_dir a normalizedName) query files of
               None \<Rightarrow> Inr []
             | Some documents \<Rightarrow> Inr documents))"

text \<open>
  \<^verbatim>\<open>doc.id || doc._id\<close> for a document that \<^verbatim>\<open>find\<close> returned. Reading a property of
  \<^verbatim>\<open>null\<close> throws (outer \<open>None\<close>).
\<close>

definition found_id :: "json \<Rightarrow> json option option" where
  "found_id doc =
     (if doc = JNull then None
      else Some (js_or (own_prop doc ''id'') (own_prop doc ''_id'')))"

text \<open>The document \<^verbatim>\<open>{ ...doc, ...update, updated_at: now }\<close> that \<^verbatim>\<open>update\<close> writes.\<close>

definition updatedDoc :: "json \<Rightarrow> js_object \<Rightarrow> int \<Rightarrow> js_object" where
  "updatedDoc doc update now =
     AList.update ''updated_at'' (JNum now) (assign_all (spread doc) update)"

text \<open>
  The loop of \<^verbatim>\<open>update\<close> over the documents found, with the counter. A throw (outer
  \<open>None\<close> of the result) keeps the files written so far.
\<close>

fun update_loop ::
  "FileStoreAdapter \<Rightarrow> string \<Rightarrow> js_object \<Rightarrow> int \<Rightarrow> json list \<Rightarrow> nat \<Rightarrow> filesystem
     \<Rightarrow> nat option \<times> filesystem" where
  "update_loop a normalizedName update now [] updatedCount d = (Some updatedCount, d)"
| "update_loop a normalizedName update now (doc # docs) updatedCount d =
     (case found_id doc of
        None \<Rightarrow> (None, d)
      | Some ident \<Rightarrow>
          (case writeFileSync d (doc_path a normalizedName ident) (JObj (updatedDoc doc update now)) of
             None \<Rightarrow> (None, d)
           | Some d1 \<Rightarrow> update_loop a normalizedName update now docs (Suc updatedCount) d1))"

definition FileStore_update ::
  "'b runtime \<Rightarrow> FileStoreAdapter \<Rightarrow> string \<Rightarrow> js_object option \<Rightarrow> js_object \<Rightarrow> int
     \<Rightarrow> error + nat \<times> FileStoreAdapter" where
  "FileStore_update rt a collection query update now =
     (if \<not> connected a then Inl NotConnected
      else let normalizedName = normalizeName collection in
        if JStr normalizedName \<notin> set (collections a) then Inr (0, a)
        else case FileStore_find rt a collection query of
          Inl e \<Rightarrow> Inr (0, a)
        | Inr docs \<Rightarrow>
            if docs = [] then Inr (0, a)
            else (case update_loop a normalizedName update now docs 0 (disk a) of
                    (None, d) \<Rightarrow> Inr (0, a\<lparr> disk := d \<rparr>)
                  | (Some updatedCount, d) \<Rightarrow> Inr (updatedCount, a\<lparr> disk := d \<rparr>)))"

text \<open>The loop of \<^verbatim>\<open>deleteFrom\<close> over the documents found.\<close>

fun delete_loop ::
  "FileStoreAdapter \<Rightarrow> string \<Rightarrow> json list \<Rightarrow> nat \<Rightarrow> filesystem \<Rightarrow> nat option \<times> filesystem" where
  "delete_loop a normalizedName [] deletedCount d = (Some deletedCount, d)"
| "delete_loop a normalizedName (doc # docs) deletedCount d =
     (case found_id doc of
        None \<Rightarrow> (None, d)
      | Some ident \<Rightarrow>
          if existsSync d (doc_path a normalizedName ident)
          then (case unlinkSync d (doc_path a normalizedName ident) of
                  None \<Rightarrow> (None, d)
                | Some d1 \<Rightarrow> delete_loop a normalizedName docs (Suc deletedCount) d1)
          else delete_loop a normalizedName docs deletedCount d)"

definition FileStore_deleteFrom ::
  "'b runtime \<Rightarrow> FileStoreAdapter \<Rightarrow> string \<Rightarrow> js_object option
     \<Rightarrow> error + nat \<times> FileStoreAdapter" where
  "FileStore_deleteFrom rt a collection query =
     (if \<not> connected a then Inl NotConnected
      else let normalizedName = normalizeName collection in
        if JStr normalizedName \<notin> set (collections a) then Inr (0, a)
        else case query of
          None \<Rightarrow> Inr (0, a)
        | Some q \<Rightarrow>
            if truthy (js_or (map_of q ''id'') (map_of q ''_id''))
            then (let docPath = doc_path a normalizedName (id_of q) in
                  if existsSync (disk a) docPath
                  then (case unlinkSync (disk a) docPath of
                          None \<Rightarrow> Inr (0, a)
                        | Some d \<Rightarrow> Inr (1, a\<lparr> disk := d \<rparr>))
                  else Inr (0, a))
            else (case FileStore_find rt a collection query of
                    Inl e \<Rightarrow> Inr (0, a)
                  | Inr docs \<Rightarrow>
                      if docs = [] then Inr (0, a)
                      else (case delete_loop a normalizedName docs 0 (disk a) of
                              (None, d) \<Rightarrow> Inr (0, a\<lparr> disk := d \<rparr>)
                            | (Some deletedCount, d) \<Rightarrow> Inr (deletedCount, a\<lparr> disk := d \<rparr>))))"

text \<open>
  The round trip of the key/value store: \<^verbatim>\<open>set(key, value)\<close> followed by \<^verbatim>\<open>get(key)\<close> on
  the adapter that \<^verbatim>\<open>set\<close> left returns the value.
\<close>

definition set_then_get :: "FileStoreAdapter \<Rightarrow> string \<Rightarrow> json \<Rightarrow> error + json" where
  "set_then_get a key val =
     (case FileStore_set a key val of
        Inl e \<Rightarrow> Inl e
      | Inr (ok, a1) \<Rightarrow> FileStore_get a1 key)"

text \<open>
  The file \<^verbatim>\<open>update\<close> and \<^verbatim>\<open>deleteFrom\<close> address for a document that is not \<^verbatim>\<open>null\<close>:
  \<^verbatim>\<open>path.join(this.collectionsDir, normalizedName, `${doc.id || doc._id}.json`)\<close>.
\<close>

definition found_path :: "FileStoreAdapter \<Rightarrow> string \<Rightarrow> json \<Rightarrow> path" where
  "found_path a normalizedName doc =
     doc_path a normalizedName (js_or (own_prop doc ''id'') (own_prop doc ''_id''))"


section \<open>index.js: the key/value operations of class HyperDB\<close>

text \<open>
  \<^verbatim>\<open>StorageEngine\<close> always builds a \<^verbatim>\<open>FileStoreAdapter\<close> and hands the key/value
  operations to it unchanged.
\<close>

definition StorageEngine_set ::
  "FileStoreAdapter \<Rightarrow> string \<Rightarrow> json \<Rightarrow> error + bool \<times> FileStoreAdapter" where
  "StorageEngine_set adapter key val = FileStore_set adapter key val"

definition StorageEngine_get :: "FileStoreAdapter \<Rightarrow> string \<Rightarrow> error + json" where
  "StorageEngine_get adapter key = FileStore_get adapter key"

definition StorageEngine_delete ::
  "FileStoreAdapter \<Rightarrow> string \<Rightarrow> error + bool \<times> FileStoreAdapter" where
  "StorageEngine_delete adapter key = FileStore_delete adapter key"

text \<open>
  The coordinator owns the cache (\<^verbatim>\<open>new MemoryCache()\<close>, with the default options) and the
  storage engine. The security module is an external collaborator: \<open>encrypt\<close> is
  \<^verbatim>\<open>this.security.encrypt\<close> when security is configured and \<open>None\<close> otherwise. The
  notifications to the cloud and real-time collaborators follow the storage call and do
  not touch the cache or the adapter; they are left out.
\<close>

record HyperDB =
  db_cache :: "json MemoryCache"
  db_storage :: FileStoreAdapter

definition HyperDB_new :: "FileStoreAdapter \<Rightarrow> HyperDB" where
  "HyperDB_new adapter = \<lparr> db_cache = MemoryCache_new None None, db_storage = adapter \<rparr>"

text \<open>
  \<^verbatim>\<open>set(key, value)\<close>: first \<^verbatim>\<open>this.cache.set(key, value)\<close>, then
  \<^verbatim>\<open>await this.storage.set(key, secureValue)\<close>, whose result (or error) is the result of
  the call. The cache keeps its new entry in every case.
\<close>

definition HyperDB_set ::
  "(json \<Rightarrow> json) option \<Rightarrow> HyperDB \<Rightarrow> string \<Rightarrow> json \<Rightarrow> int \<Rightarrow> (error + bool) \<times> HyperDB" where
  "HyperDB_set encrypt db key val now =
     (let secureValue = (case encrypt of None \<Rightarrow> val | Some enc \<Rightarrow> enc val);
          cache1 = MemoryCache_set (db_cache db) key val None now
      in case StorageEngine_set (db_storage db) key secureValue of
           Inl e \<Rightarrow> (Inl e, db\<lparr> db_cache := cache1 \<rparr>)
         | Inr (result, adapter1) \<Rightarrow>
             (Inr result, db\<lparr> db_cache := cache1, db_storage := adapter1 \<rparr>))"

text \<open>
  \<^verbatim>\<open>get(key)\<close>: the cache is asked first; on a miss the storage engine is read, the value
  is decrypted when security is configured and the value is truthy, and a value other
  than \<^verbatim>\<open>null\<close> is put in the cache.
\<close>

definition HyperDB_get ::
  "(json \<Rightarrow> json) option \<Rightarrow> HyperDB \<Rightarrow> string \<Rightarrow> int \<Rightarrow> (error + json) \<times> HyperDB" where
  "HyperDB_get decrypt db key now =
     (case MemoryCache_get (db_cache db) key now of
        (Some cachedValue, cache1) \<Rightarrow> (Inr cachedValue, db\<lparr> db_cache := cache1 \<rparr>)
      | (None, cache1) \<Rightarrow>
          (case StorageEngine_get (db_storage db) key of
             Inl e \<Rightarrow> (Inl e, db\<lparr> db_cache := cache1 \<rparr>)
           | Inr v \<Rightarrow>
               (let decryptedValue =
                      (case decrypt of
                         None \<Rightarrow> v
                       | Some dec \<Rightarrow> if truthy (Some v) then dec v else v)
                in (Inr decryptedValue,
                    db\<lparr> db_cache :=
                          (if decryptedValue \<noteq> JNull
                           then MemoryCache_set cache1 key decryptedValue None now
                           else cache1) \<rparr>))))"

text \<open>\<^verbatim>\<open>delete(key)\<close>: first \<^verbatim>\<open>this.cache.delete(key)\<close>, then the storage engine.\<close>

definition HyperDB_delete :: "HyperDB \<Rightarrow> string \<Rightarrow> (error + bool) \<times> HyperDB" where
  "HyperDB_delete db key =
     (let cache1 = snd (MemoryCache_delete (db_cache db) key)
      in case StorageEngine_delete (db_storage db) key of
           Inl e \<Rightarrow> (Inl e, db\<lparr> db_cache := cache1 \<rparr>)
         | Inr (result, adapter1) \<Rightarrow>
             (Inr result, db\<lparr> db_cache := cache1, db_storage := adapter1 \<rparr>))"


section \<open>A runtime for the examples\<close>

text \<open>
  A fragment of the standard runtime, to evaluate examples in: every JSON value inherits
  \<^verbatim>\<open>constructor\<close>, the function \<^verbatim>\<open>Object\<close>, \<^verbatim>\<open>Array\<close>, \<^verbatim>\<open>String\<close>, \<^verbatim>\<open>Number\<close> or
  \<^verbatim>\<open>Boolean\<close>; such a function has the properties \<^verbatim>\<open>name\<close> and \<^verbatim>\<open>length\<close> (1 for each
  of the five). Every other inherited property reads \<^verbatim>\<open>undefined\<close> in the fragment, and
  reading a property of \<^verbatim>\<open>null\<close> throws.
\<close>

datatype builtin_function = BuiltinFunction string int

fun fragment_inherited :: "json \<Rightarrow> string \<Rightarrow> builtin_function js_value option" where
  "fragment_inherited JNull part = None"
| "fragment_inherited v part =
     (if part = ''constructor''
      then Some (Builtin (BuiltinFunction
                   (case v of
                      JArr xs \<Rightarrow> ''Array''
                    | JStr s \<Rightarrow> ''String''
                    | JNum n \<Rightarrow> ''Number''
                    | JBool b \<Rightarrow> ''Boolean''
                    | _ \<Rightarrow> ''Object'') 1))
      else Some Undefined)"

fun fragment_builtin_prop ::
  "builtin_function \<Rightarrow> string \<Rightarrow> builtin_function js_value option" where
  "fragment_builtin_prop (BuiltinFunction name len) part =
     (if part = ''name'' then Some (Data (JStr name))
      else if part = ''length'' then Some (Data (JNum len))
      else Some Undefined)"

definition runtime_fragment :: "builtin_function runtime" where
  "runtime_fragment =
     \<lparr> inherited = fragment_inherited, builtin_prop = fragment_builtin_prop \<rparr>"


section \<open>A small database\<close>

text \<open>
  The adapter of the directory \<^verbatim>\<open>/data\<close> on an empty disk, before and after
  \<^verbatim>\<open>connect()\<close>, and after \<^verbatim>\<open>close()\<close>.
\<close>

definition new_adapter :: FileStoreAdapter where
  "new_adapter = FileStoreAdapter_new [''data''] empty_disk"

definition fresh_db :: FileStoreAdapter where
  "fresh_db = snd (FileStore_connect new_adapter)"

definition closed_db :: FileStoreAdapter where
  "closed_db = snd (FileStore_close fresh_db)"

text \<open>
  The document \<^verbatim>\<open>{id: "u1", age: 30, address: {city: "Paris"}}\<close>, inserted into the
  collection \<^verbatim>\<open>users\<close> at time 1000, and the document \<^verbatim>\<open>{id: "u1", age: 31}\<close> inserted
  under the same identifier at time 2000.
\<close>

definition user1 :: js_object where
  "user1 = [(''id'', JStr ''u1''), (''age'', JNum 30),
            (''address'', JObj [(''city'', JStr ''Paris'')])]"

definition user1_again :: js_object where
  "user1_again = [(''id'', JStr ''u1''), (''age'', JNum 31)]"

definition after_insert :: "FileStoreAdapter \<Rightarrow> string \<Rightarrow> js_object \<Rightarrow> int \<Rightarrow> FileStoreAdapter" where
  "after_insert a collection document now =
     (case FileStore_insert a collection document ''generated'' now of
        Inl e \<Rightarrow> a
      | Inr (ok, a1) \<Rightarrow> a1)"

definition users_db :: FileStoreAdapter where
  "users_db = after_insert fresh_db ''users'' user1 1000"

definition users_db2 :: FileStoreAdapter where
  "users_db2 = after_insert users_db ''users'' user1_again 2000"

definition user1_file :: path where
  "user1_file = [''data'', ''collections'', ''users'', ''u1.json'']"

definition users_dir :: path where
  "users_dir = [''data'', ''collections'', ''users'']"

text \<open>An adapter whose database directory \<^verbatim>\<open>/data\<close> is taken by a file: \<^verbatim>\<open>connect()\<close> fails.\<close>

definition blocked_adapter :: FileStoreAdapter where
  "blocked_adapter =
     FileStoreAdapter_new [''data''] \<lparr> fs_dirs = [], fs_files = [([''data''], Some JNull)] \<rparr>"

text \<open>
  The document of \<^verbatim>\<open>u1\<close> as the first insert stored it, the patch
  \<^verbatim>\<open>{"address.city": "Rome"}\<close>, the adapter after
  \<^verbatim>\<open>update("users", {id: "u1"}, {"address.city": "Rome"})\<close> at time 3000, and the query
  \<^verbatim>\<open>{id: "u1", age: 99}\<close>, whose age no document has.
\<close>

definition user1_stored :: json where
  "user1_stored =
     JObj [(''id'', JStr ''u1''), (''age'', JNum 30),
           (''address'', JObj [(''city'', JStr ''Paris'')]),
           (''created_at'', JNum 1000), (''updated_at'', JNum 1000)]"

definition rome_patch :: js_object where
  "rome_patch = [(''address.city'', JStr ''Rome'')]"

definition after_update ::
  "FileStoreAdapter \<Rightarrow> string \<Rightarrow> js_object option \<Rightarrow> js_object \<Rightarrow> int \<Rightarrow> FileStoreAdapter" where
  "after_update a collection query patch now =
     (case FileStore_update runtime_fragment a collection query patch now of
        Inl e \<Rightarrow> a
      | Inr (n, a1) \<Rightarrow> a1)"

definition users_db3 :: FileStoreAdapter where
  "users_db3 = after_update users_db ''users'' (Some [(''id'', JStr ''u1'')]) rome_patch 3000"

definition u1_aged_99 :: js_object where
  "u1_aged_99 = [(''id'', JStr ''u1''), (''age'', JNum 99)]"

text \<open>
  The coordinator over the freshly connected adapter, after \<^verbatim>\<open>set("a/b", 1)\<close> at time 5 and
  after \<^verbatim>\<open>set("greeting", "hi")\<close> at time 5, without security.
\<close>

definition db_after_slash_set :: HyperDB where
  "db_after_slash_set = snd (HyperDB_set None (HyperDB_new fresh_db) ''a/b'' (JNum 1) 5)"

definition db_after_greeting_set :: HyperDB where
  "db_after_greeting_set =
     snd (HyperDB_set None (HyperDB_new fresh_db) ''greeting'' (JStr ''hi'') 5)"

text \<open>
  Two documents that end up with one identifier: \<^verbatim>\<open>u2\<close> is inserted next to \<^verbatim>\<open>u1\<close> at
  time 1500, and \<^verbatim>\<open>update("users", {}, {id: "s"})\<close> at time 2500 gives both stored
  documents the identifier \<^verbatim>\<open>s\<close>, in their files \<^verbatim>\<open>u1.json\<close> and \<^verbatim>\<open>u2.json\<close>.
\<close>

definition user2 :: js_object where
  "user2 = [(''id'', JStr ''u2''), (''age'', JNum 20)]"

definition two_users_db :: FileStoreAdapter where
  "two_users_db = after_insert users_db ''users'' user2 1500"

definition user2_stored :: json where
  "user2_stored =
     JObj [(''id'', JStr ''u2''), (''age'', JNum 20),
           (''created_at'', JNum 1500), (''updated_at'', JNum 1500)]"

definition two_users_db3 :: FileStoreAdapter where
  "two_users_db3 = after_update two_users_db ''users'' (Some []) rome_patch 3000"

definition same_id_db :: FileStoreAdapter where
  "same_id_db = after_update two_users_db ''users'' (Some []) [(''id'', JStr ''s'')] 2500"

definition user1_renamed :: json where
  "user1_renamed =
     JObj [(''id'', JStr ''s''), (''age'', JNum 30),
           (''address'', JObj [(''city'', JStr ''Paris'')]),
           (''created_at'', JNum 1000), (''updated_at'', JNum 2500)]"

definition user2_renamed :: json where
  "user2_renamed =
     JObj [(''id'', JStr ''s''), (''age'', JNum 20),
           (''created_at'', JNum 1500), (''updated_at'', JNum 2500)]"

section \<open>The expiring cache: the two maps stay aligned\<close>

lemma aligned_new: "cache_aligned (MemoryCache_new a b)"
  by (simp add: cache_aligned_def MemoryCache_new_def)

lemma aligned_delete: "cache_aligned c \<Longrightarrow> cache_aligned (snd (MemoryCache_delete c k))"
proof -
  assume a: "cache_aligned c"
  then have keys: "map fst (expiry c) = map fst (cache c)"
    and dist: "distinct (map fst (cache c))"
    unfolding cache_aligned_def by auto
  show ?thesis
    by (simp add: cache_aligned_def MemoryCache_delete_def delete_keys keys dist
        distinct_removeAll)
qed

lemma aligned_evictOldest: "cache_aligned c \<Longrightarrow> cache_aligned (MemoryCache_evictOldest c)"
  by (simp add: MemoryCache_evictOldest_def Let_def aligned_delete)

lemma aligned_update:
  "cache_aligned c \<Longrightarrow>
   cache_aligned (c\<lparr> cache := AList.update k v (cache c),
                     expiry := AList.update k e (expiry c), sets := n \<rparr>)"
proof -
  assume a: "cache_aligned c"
  then have keys: "map fst (expiry c) = map fst (cache c)"
    and dist: "distinct (map fst (cache c))"
    unfolding cache_aligned_def by auto
  show ?thesis
    by (simp add: cache_aligned_def update_keys keys dist)
qed

lemma aligned_set: "cache_aligned c \<Longrightarrow> cache_aligned (MemoryCache_set c k v t now)"
  unfolding MemoryCache_set_def Let_def
  by (rule aligned_update) (simp add: aligned_evictOldest)

lemma aligned_stats:
  "cache_aligned (c\<lparr> misses := n \<rparr>) = cache_aligned c"
  "cache_aligned (c\<lparr> hits := n \<rparr>) = cache_aligned c"
  by (simp_all add: cache_aligned_def)

lemma aligned_get: "cache_aligned c \<Longrightarrow> cache_aligned (snd (MemoryCache_get c k now))"
  by (simp add: MemoryCache_get_def Let_def aligned_stats aligned_delete)

lemma aligned_has: "cache_aligned c \<Longrightarrow> cache_aligned (snd (MemoryCache_has c k now))"
  by (simp add: MemoryCache_has_def aligned_delete)

lemma aligned_clear: "cache_aligned (MemoryCache_clear c)"
  by (simp add: cache_aligned_def MemoryCache_clear_def)

lemma aligned_cleanup_loop: "cache_aligned c \<Longrightarrow> cache_aligned (cleanup_loop es now c)"
  by (induction es now c rule: cleanup_loop.induct) (simp_all add: aligned_delete)

lemma aligned_cleanup: "cache_aligned c \<Longrightarrow> cache_aligned (MemoryCache_cleanup c now)"
  by (simp add: MemoryCache_cleanup_def aligned_cleanup_loop)

lemma aligned_step: "cache_aligned c \<Longrightarrow> cache_aligned (cache_step c op)"
  by (cases op)
     (simp_all add: aligned_set aligned_get aligned_has aligned_delete aligned_clear
        aligned_cleanup)

lemma aligned_run: "cache_aligned c \<Longrightarrow> cache_aligned (cache_run c ops)"
  unfolding cache_run_def
  by (induction ops arbitrary: c) (simp_all add: aligned_step)

text \<open>
  Claim C10. In every state that a fresh cache reaches by a sequence of \<^verbatim>\<open>set\<close>, \<^verbatim>\<open>get\<close>,
  \<^verbatim>\<open>has\<close>, \<^verbatim>\<open>delete\<close>, \<^verbatim>\<open>clear\<close> and \<^verbatim>\<open>cleanup\<close> calls, the value map and the expiry
  map have the same key set, and no key occurs twice in either map: every cached value has
  exactly one expiry timestamp and the expiry map has no orphan entry.
\<close>

theorem C10_cache_expiry_same_keys:
  "fst ` set (cache (cache_run (MemoryCache_new opt_maxSize opt_ttl) ops))
     = fst ` set (expiry (cache_run (MemoryCache_new opt_maxSize opt_ttl) ops))
   \<and> distinct (map fst (cache (cache_run (MemoryCache_new opt_maxSize opt_ttl) ops)))
   \<and> distinct (map fst (expiry (cache_run (MemoryCache_new opt_maxSize opt_ttl) ops)))"
proof -
  let ?c = "cache_run (MemoryCache_new opt_maxSize opt_ttl) ops"
  have al: "cache_aligned ?c"
    by (rule aligned_run) (rule aligned_new)
  then have keys: "map fst (cache ?c) = map fst (expiry ?c)"
    and dist: "distinct (map fst (cache ?c))"
    unfolding cache_aligned_def by auto
  have "set (map fst (cache ?c)) = set (map fst (expiry ?c))"
    by (simp only: keys)
  then have same: "fst ` set (cache ?c) = fst ` set (expiry ?c)"
    by (simp only: set_map)
  have dist': "distinct (map fst (expiry ?c))"
    using dist by (simp only: keys)
  from same dist dist' show ?thesis
    by blast
qed

section \<open>The expiring cache: lazy expiry on access\<close>

lemma delete_other_key:
  "k \<noteq> key \<Longrightarrow>
   map_of (cache (snd (MemoryCache_delete c key))) k = map_of (cache c) k \<and>
   map_of (expiry (snd (MemoryCache_delete c key))) k = map_of (expiry c) k"
  by (simp add: MemoryCache_delete_def delete_conv)

lemma delete_same_key:
  "Map_has (cache c) key \<Longrightarrow>
   map_of (cache (snd (MemoryCache_delete c key))) key = None \<and>
   map_of (expiry (snd (MemoryCache_delete c key))) key = None"
  by (simp add: MemoryCache_delete_def delete_conv)

lemma get_other_key:
  "k \<noteq> key \<Longrightarrow>
   map_of (cache (snd (MemoryCache_get c key now))) k = map_of (cache c) k \<and>
   map_of (expiry (snd (MemoryCache_get c key now))) k = map_of (expiry c) k"
  by (simp add: MemoryCache_get_def Let_def delete_other_key)

lemma has_other_key:
  "k \<noteq> key \<Longrightarrow>
   map_of (cache (snd (MemoryCache_has c key now))) k = map_of (cache c) k \<and>
   map_of (expiry (snd (MemoryCache_has c key now))) k = map_of (expiry c) k"
  by (simp add: MemoryCache_has_def delete_other_key)

text \<open>
  Claim C7. For every cache state, key and clock reading: when the cache holds the key and
  its expiry timestamp lies before the clock (\<^verbatim>\<open>expiryTime < Date.now()\<close>), \<^verbatim>\<open>get\<close> returns
  \<^verbatim>\<open>undefined\<close>, \<^verbatim>\<open>has\<close> returns \<^verbatim>\<open>false\<close>, and after either call the key is gone from the
  value map and from the expiry map. Whatever the state, \<^verbatim>\<open>get\<close> and \<^verbatim>\<open>has\<close> leave the
  entries of every other key as they were.
\<close>

theorem C7_expired_entry_dropped_on_access:
  "(Map_has (cache c) key \<and> map_of (expiry c) key = Some expires_at \<and> expires_at < now \<longrightarrow>
      fst (MemoryCache_get c key now) = None
    \<and> fst (MemoryCache_has c key now) = False
    \<and> map_of (cache (snd (MemoryCache_get c key now))) key = None
    \<and> map_of (expiry (snd (MemoryCache_get c key now))) key = None
    \<and> map_of (cache (snd (MemoryCache_has c key now))) key = None
    \<and> map_of (expiry (snd (MemoryCache_has c key now))) key = None)
   \<and> (\<forall>k. k \<noteq> key \<longrightarrow>
      map_of (cache (snd (MemoryCache_get c key now))) k = map_of (cache c) k
    \<and> map_of (expiry (snd (MemoryCache_get c key now))) k = map_of (expiry c) k
    \<and> map_of (cache (snd (MemoryCache_has c key now))) k = map_of (cache c) k
    \<and> map_of (expiry (snd (MemoryCache_has c key now))) k = map_of (expiry c) k)"
proof (intro conjI impI allI)
  assume a: "Map_has (cache c) key \<and> map_of (expiry c) key = Some expires_at \<and> expires_at < now"
  then have ex: "is_expired c key now" and has: "Map_has (cache c) key"
    by (simp_all add: is_expired_def)
  show "fst (MemoryCache_get c key now) = None"
    using ex has by (simp add: MemoryCache_get_def Let_def)
  show "fst (MemoryCache_has c key now) = False"
    using ex has by (simp add: MemoryCache_has_def)
  show "map_of (cache (snd (MemoryCache_get c key now))) key = None"
    using ex has by (simp add: MemoryCache_get_def Let_def delete_same_key)
  show "map_of (expiry (snd (MemoryCache_get c key now))) key = None"
    using ex has by (simp add: MemoryCache_get_def Let_def delete_same_key)
  show "map_of (cache (snd (MemoryCache_has c key now))) key = None"
    using ex has by (simp add: MemoryCache_has_def delete_same_key)
  show "map_of (expiry (snd (MemoryCache_has c key now))) key = None"
    using ex has by (simp add: MemoryCache_has_def delete_same_key)
next
  fix k assume "k \<noteq> key"
  then show "map_of (cache (snd (MemoryCache_get c key now))) k = map_of (cache c) k"
    by (simp add: get_other_key)
next
  fix k assume "k \<noteq> key"
  then show "map_of (expiry (snd (MemoryCache_get c key now))) k = map_of (expiry c) k"
    by (simp add: get_other_key)
next
  fix k assume "k \<noteq> key"
  then show "map_of (cache (snd (MemoryCache_has c key now))) k = map_of (cache c) k"
    by (simp add: has_other_key)
next
  fix k assume "k \<noteq> key"
  then show "map_of (expiry (snd (MemoryCache_has c key now))) k = map_of (expiry c) k"
    by (simp add: has_other_key)
qed

text \<open>
  The theorem at a cache with two entries, \<open>a\<close> set at time 0 with a TTL of 10 ms and
  \<open>b\<close> with a TTL of 1000 ms, read at time 20: \<open>a\<close> has expired and is dropped, \<open>b\<close> stays.
\<close>

lemma two_entries_maps:
  "cache two_entries = [(''a'', 1), (''b'', 2)]"
  "expiry two_entries = [(''a'', 10), (''b'', 1000)]"
  by (simp_all add: two_entries_def MemoryCache_set_def MemoryCache_new_def or_default_def
      Map_size_def Map_has_def)

theorem C7_expired_entry_dropped_on_access_witness:
  "Map_has (cache two_entries) ''a'' \<and> map_of (expiry two_entries) ''a'' = Some 10
   \<and> (10::int) < 20
   \<and> fst (MemoryCache_get two_entries ''a'' 20) = None
   \<and> fst (MemoryCache_has two_entries ''a'' 20) = False
   \<and> map_of (cache (snd (MemoryCache_get two_entries ''a'' 20))) ''a'' = None
   \<and> map_of (cache (snd (MemoryCache_get two_entries ''a'' 20))) ''b'' = Some 2
   \<and> map_of (expiry (snd (MemoryCache_get two_entries ''a'' 20))) ''b'' = Some 1000"
proof -
  have h: "Map_has (cache two_entries) ''a'' \<and> map_of (expiry two_entries) ''a'' = Some 10
           \<and> (10::int) < 20"
    by (simp add: two_entries_maps Map_has_def)
  have ne: "''b'' \<noteq> ''a''"
    by simp
  have b: "map_of (cache two_entries) ''b'' = Some 2"
          "map_of (expiry two_entries) ''b'' = Some 1000"
    by (simp_all add: two_entries_maps)
  note t = C7_expired_entry_dropped_on_access [of two_entries "''a''" 10 20]
  note expired = t [THEN conjunct1, THEN mp, OF h]
  note others = t [THEN conjunct2, THEN spec, THEN mp, OF ne]
  show ?thesis
    using h expired others b by simp
qed


section \<open>The expiring cache: eviction at capacity\<close>

text \<open>
  What \<^verbatim>\<open>_evictOldest\<close> finds: the scan of a non-empty expiry map returns the first key
  whose expiry is the lowest. When every stored key is a non-empty string, \<^verbatim>\<open>set\<close> of a
  new key on a full cache deletes that entry and the size stays as it was.
\<close>

lemma evict_scan_returns:
  "\<exists>k. evict_scan es (Some k0) ot = Some k"
proof (induction es arbitrary: k0 ot)
  case Nil
  show ?case by simp
next
  case (Cons p es)
  obtain k1 e1 where p: "p = (k1, e1)" by (cases p)
  show ?case
    using Cons.IH by (simp add: p)
qed

lemma evict_scan_lowest:
  "evict_scan es (Some k0) (Some t0) = Some k \<Longrightarrow>
   (k = k0 \<and> (\<forall>x \<in> set es. t0 \<le> snd x))
   \<or> (\<exists>e. (k, e) \<in> set es \<and> e < t0 \<and> (\<forall>x \<in> set es. e \<le> snd x))"
proof (induction es arbitrary: k0 t0)
  case Nil
  then show ?case by simp
next
  case (Cons p es)
  obtain k1 e1 where p: "p = (k1, e1)" by (cases p)
  show ?case
  proof (cases "e1 < t0")
    case True
    with Cons.prems have "evict_scan es (Some k1) (Some e1) = Some k"
      by (simp add: p)
    from Cons.IH [OF this] consider
      (first) "k = k1" "\<forall>x \<in> set es. e1 \<le> snd x"
      | (later) e where "(k, e) \<in> set es" "e < e1" "\<forall>x \<in> set es. e \<le> snd x"
      by blast
    then show ?thesis
    proof cases
      case first
      have "(k, e1) \<in> set (p # es) \<and> e1 < t0 \<and> (\<forall>x \<in> set (p # es). e1 \<le> snd x)"
        using first True by (simp add: p)
      then show ?thesis by blast
    next
      case later
      have "(k, e) \<in> set (p # es) \<and> e < t0 \<and> (\<forall>x \<in> set (p # es). e \<le> snd x)"
        using later True by (simp add: p)
      then show ?thesis by blast
    qed
  next
    case False
    with Cons.prems have "evict_scan es (Some k0) (Some t0) = Some k"
      by (simp add: p)
    from Cons.IH [OF this] consider
      (kept) "k = k0" "\<forall>x \<in> set es. t0 \<le> snd x"
      | (later) e where "(k, e) \<in> set es" "e < t0" "\<forall>x \<in> set es. e \<le> snd x"
      by blast
    then show ?thesis
    proof cases
      case kept
      have "k = k0 \<and> (\<forall>x \<in> set (p # es). t0 \<le> snd x)"
        using kept False by (simp add: p)
      then show ?thesis by blast
    next
      case later
      have "(k, e) \<in> set (p # es) \<and> e < t0 \<and> (\<forall>x \<in> set (p # es). e \<le> snd x)"
        using later False by (simp add: p)
      then show ?thesis by blast
    qed
  qed
qed

lemma evict_scan_start:
  assumes "es \<noteq> []"
  shows "\<exists>k e. evict_scan es None None = Some k \<and> (k, e) \<in> set es
           \<and> (\<forall>x \<in> set es. e \<le> snd x)"
proof -
  from assms obtain k1 e1 rest where es: "es = (k1, e1) # rest"
    by (cases es) auto
  obtain k where k: "evict_scan rest (Some k1) (Some e1) = Some k"
    using evict_scan_returns by blast
  have start: "evict_scan es None None = Some k"
    by (simp add: es k)
  from evict_scan_lowest [OF k] consider
    (first) "k = k1" "\<forall>x \<in> set rest. e1 \<le> snd x"
    | (later) e where "(k, e) \<in> set rest" "e < e1" "\<forall>x \<in> set rest. e \<le> snd x"
    by blast
  then show ?thesis
  proof cases
    case first
    have "(k, e1) \<in> set es \<and> (\<forall>x \<in> set es. e1 \<le> snd x)"
      using first by (simp add: es)
    with start show ?thesis by blast
  next
    case later
    have "(k, e) \<in> set es \<and> (\<forall>x \<in> set es. e \<le> snd x)"
      using later by (simp add: es)
    with start show ?thesis by blast
  qed
qed

lemma length_delete_present:
  "distinct (map fst al) \<Longrightarrow> k \<in> fst ` set al \<Longrightarrow>
   Suc (length (AList.delete k al)) = length al"
proof (induction al)
  case Nil
  then show ?case by simp
next
  case (Cons p al)
  show ?case
  proof (cases "fst p = k")
    case True
    with Cons.prems(1) have "k \<notin> fst ` set al" by auto
    then have "AList.delete k al = al"
      by (induction al) auto
    with True show ?thesis by (cases p) (simp add: AList.delete_eq)
  next
    case False
    with Cons show ?thesis by (auto simp: AList.delete_eq)
  qed
qed

lemma length_update_new:
  "k \<notin> fst ` set al \<Longrightarrow> length (AList.update k v al) = Suc (length al)"
  by (induction al) auto

lemma evict_then_set:
  assumes al: "cache_aligned c"
    and full: "maxSize c \<le> Map_size (cache c)"
    and new: "\<not> Map_has (cache c) key"
    and some: "cache c \<noteq> []"
    and keys: "[] \<notin> fst ` set (cache c)"
  shows "\<exists>k e. (k, e) \<in> set (expiry c) \<and> (\<forall>x \<in> set (expiry c). e \<le> snd x)
           \<and> cache (MemoryCache_set c key val t now)
               = AList.update key val (AList.delete k (cache c))
           \<and> expiry (MemoryCache_set c key val t now)
               = AList.update key (now + (case t of None \<Rightarrow> ttl c | Some x \<Rightarrow> x))
                   (AList.delete k (expiry c))
           \<and> Map_size (cache (MemoryCache_set c key val t now)) = Map_size (cache c)"
proof -
  from al have same: "map fst (expiry c) = map fst (cache c)"
    and dist: "distinct (map fst (cache c))"
    unfolding cache_aligned_def by auto
  from same some have "expiry c \<noteq> []"
    by (metis map_is_Nil_conv)
  from evict_scan_start [OF this] obtain k e where
    scan: "evict_scan (expiry c) None None = Some k"
    and mem: "(k, e) \<in> set (expiry c)"
    and low: "\<forall>x \<in> set (expiry c). e \<le> snd x"
    by blast
  from mem have "k \<in> set (map fst (expiry c))"
    by force
  then have kin: "k \<in> fst ` set (cache c)"
    by (simp add: same)
  with keys have knz: "k \<noteq> []"
    by metis
  from kin have has: "Map_has (cache c) k"
    by (simp add: Map_has_def map_of_eq_None_iff)
  have ev: "MemoryCache_evictOldest c
              = c\<lparr> cache := AList.delete k (cache c), expiry := AList.delete k (expiry c),
                   deletes := deletes c + 1 \<rparr>"
    using scan knz has
    by (simp add: MemoryCache_evictOldest_def truthy_key_def MemoryCache_delete_def)
  from new have knew: "key \<notin> fst ` set (cache c)"
    by (simp add: Map_has_def map_of_eq_None_iff)
  then have knew': "key \<notin> fst ` set (AList.delete k (cache c))"
    by (auto simp: AList.delete_eq)
  have c1: "cache (MemoryCache_set c key val t now)
              = AList.update key val (AList.delete k (cache c))"
    using full new by (simp add: MemoryCache_set_def Let_def ev)
  have e1: "expiry (MemoryCache_set c key val t now)
              = AList.update key (now + (case t of None \<Rightarrow> ttl c | Some x \<Rightarrow> x))
                  (AList.delete k (expiry c))"
    using full new by (simp add: MemoryCache_set_def Let_def ev)
  have "length (AList.update key val (AList.delete k (cache c))) = length (cache c)"
    using length_update_new [OF knew'] length_delete_present [OF dist kin] by simp
  then have sz: "Map_size (cache (MemoryCache_set c key val t now)) = Map_size (cache c)"
    by (simp add: c1 Map_size_def)
  from mem low c1 e1 sz show ?thesis
    by blast
qed

text \<open>
  Claim C6, at the key \<^verbatim>\<open>""\<close>. The cache holds \<open>maxSize = 1\<close> entries and \<^verbatim>\<open>set("a", 8)\<close>
  brings a new key. \<^verbatim>\<open>_evictOldest\<close> finds the entry of \<^verbatim>\<open>""\<close>, the only and therefore the
  lowest expiry, but \<^verbatim>\<open>if (oldestKey)\<close> is false for the empty string: nothing is evicted
  and the cache ends with two entries, one more than \<open>maxSize\<close>.
\<close>

theorem C6_empty_key_is_not_evicted:
  "maxSize full_with_empty_key = 1
   \<and> Map_size (cache full_with_empty_key) = 1
   \<and> \<not> Map_has (cache full_with_empty_key) ''a''
   \<and> evict_scan (expiry full_with_empty_key) None None = Some ''''
   \<and> MemoryCache_evictOldest full_with_empty_key = full_with_empty_key
   \<and> cache (MemoryCache_set full_with_empty_key ''a'' 8 None 1) = [('''', 7), (''a'', 8)]
   \<and> Map_size (cache (MemoryCache_set full_with_empty_key ''a'' 8 None 1)) = 2"
  by (simp add: full_with_empty_key_def MemoryCache_set_def MemoryCache_new_def or_default_def
      Map_size_def Map_has_def MemoryCache_evictOldest_def truthy_key_def)

section \<open>The query matcher\<close>





text \<open>The guard: a document that is \<^verbatim>\<open>undefined\<close>, \<^verbatim>\<open>null\<close> or otherwise falsy matches no query.\<close>

lemma matches_falsy_doc: "\<not> truthy doc \<Longrightarrow> matches rt doc query = Some False"
  by (simp add: matches_def)

lemma truthy_object: "truthy (Some (JObj props))"
  by simp

text \<open>
  \<^verbatim>\<open>matches\<close> on examples, in the runtime fragment: a value that differs is rejected,
  at a plain key and at the end of a path; a path that leaves the document is rejected;
  a path through an inherited property is followed.
\<close>

lemma matches_examples:
  "matches runtime_fragment (Some (JObj [(''age'', JNum 30)])) (Some [(''age'', JNum 30)])
     = Some True"
  "matches runtime_fragment (Some (JObj [(''age'', JNum 30)])) (Some [(''age'', JNum 99)])
     = Some False"
  "matches runtime_fragment (Some (JObj [(''a'', JObj [(''b'', JNum 1)])]))
     (Some [(''a.b'', JNum 2)]) = Some False"
  "matches runtime_fragment (Some (JObj [(''a'', JObj [(''b'', JNum 1)])]))
     (Some [(''a.c'', JNum 1)]) = Some False"
  "matches runtime_fragment (Some (JObj [(''a'', JNum 1), (''b'', JNum 2)]))
     (Some [(''a'', JNum 1), (''b'', JNum 3)]) = Some False"
  "matches runtime_fragment (Some (JObj [])) (Some [(''constructor.name'', JStr ''Object'')])
     = Some True"
  "matches runtime_fragment (Some JNull) (Some []) = Some False"
  by code_simp+



section \<open>Normalised names are safe path segments\<close>

lemma lower_name_char: "name_char c \<Longrightarrow> name_char (lower_char c)"
  by (auto simp: name_char_def lower_char_def)

lemma lower_underscore: "lower_char CHR ''_'' = CHR ''_''"
  by (simp add: lower_char_def)

lemma normalizeName_chars: "c \<in> set (normalizeName s) \<Longrightarrow> name_char c"
  by (auto simp: normalizeName_def lower_name_char lower_underscore) (simp add: name_char_def)

lemma lower_lower: "lower_char (lower_char c) = lower_char c"
  by (auto simp: lower_char_def)

lemma split_on_no_sep: "sep \<notin> set s \<Longrightarrow> split_on sep s piece = [piece @ s]"
  by (induction s arbitrary: piece) auto

lemma path_join_normalized:
  "path_join base (normalizeName s) =
     (if normalizeName s = [] then base else base @ [normalizeName s])"
proof -
  have slash: "CHR ''/'' \<notin> set (normalizeName s)"
    using normalizeName_chars [of "CHR ''/''" s] by (auto simp: name_char_def)
  have dot: "CHR ''.'' \<notin> set (normalizeName s)"
    using normalizeName_chars [of "CHR ''.''" s] by (auto simp: name_char_def)
  have nd: "normalizeName s \<noteq> ''.''" "normalizeName s \<noteq> ''..''"
    using dot by auto
  show ?thesis
    using nd by (simp add: path_join_def split_on_no_sep [OF slash])
qed

lemma normalizeName_idem: "normalizeName (normalizeName s) = normalizeName s"
proof -
  have "\<And>c. c \<in> set (normalizeName s) \<Longrightarrow> lower_char (if name_char c then c else CHR ''_'') = c"
  proof -
    fix c assume c: "c \<in> set (normalizeName s)"
    then have n: "name_char c" by (rule normalizeName_chars)
    from c obtain x where "c = lower_char (if name_char x then x else CHR ''_'')"
      by (auto simp: normalizeName_def)
    then have "lower_char c = c" by (simp add: lower_lower)
    with n show "lower_char (if name_char c then c else CHR ''_'') = c" by simp
  qed
  then have "map (\<lambda>c. lower_char (if name_char c then c else CHR ''_'')) (normalizeName s) = normalizeName s"
    by (simp add: map_idI)
  then show ?thesis
    by (simp add: normalizeName_def)
qed

section \<open>The adapter: calls without a connection\<close>

lemma connect_failed_keeps_flag:
  "fst (FileStore_connect a) = False \<Longrightarrow> connected (snd (FileStore_connect a)) = connected a"
  by (auto simp: FileStore_connect_def Let_def split: option.splits prod.splits if_splits)

text \<open>
  Claim C9. An adapter is not connected when it has just been constructed, after a
  \<^verbatim>\<open>connect()\<close> that failed, and after \<^verbatim>\<open>close()\<close>. Each of the eleven data operations,
  called on an adapter that is not connected, throws the not-connected error: the result
  is the error and no boolean, \<^verbatim>\<open>null\<close>, list or count.
\<close>

theorem C9_not_connected_is_thrown:
  "(\<not> connected a \<longrightarrow>
        FileStore_set a key val = Inl NotConnected
      \<and> FileStore_get a key = Inl NotConnected
      \<and> FileStore_has a key = Inl NotConnected
      \<and> FileStore_delete a key = Inl NotConnected
      \<and> FileStore_getCollections a = Inl NotConnected
      \<and> FileStore_createCollection a name = Inl NotConnected
      \<and> FileStore_insert a collection document generated now = Inl NotConnected
      \<and> FileStore_findOne rt a collection query = Inl NotConnected
      \<and> FileStore_find rt a collection query = Inl NotConnected
      \<and> FileStore_update rt a collection query patch now = Inl NotConnected
      \<and> FileStore_deleteFrom rt a collection query = Inl NotConnected)
   \<and> \<not> connected (FileStoreAdapter_new dir d)
   \<and> \<not> connected (snd (FileStore_close a))
   \<and> (\<not> connected a \<and> \<not> fst (FileStore_connect a) \<longrightarrow> \<not> connected (snd (FileStore_connect a)))"
proof (intro conjI impI)
  show "\<not> connected (FileStoreAdapter_new dir d)"
    by (simp add: FileStoreAdapter_new_def)
  show "\<not> connected (snd (FileStore_close a))"
    by (simp add: FileStore_close_def)
  show "\<not> connected (snd (FileStore_connect a))"
    if "\<not> connected a \<and> \<not> fst (FileStore_connect a)"
    using that connect_failed_keeps_flag [of a] by simp
qed (simp_all add: FileStore_set_def FileStore_get_def FileStore_has_def FileStore_delete_def
      FileStore_getCollections_def FileStore_createCollection_def FileStore_insert_def
      FileStore_findOne_def FileStore_find_def FileStore_update_def FileStore_deleteFrom_def)

text \<open>
  The theorem at the adapter that was connected and then closed, and at the adapter
  whose \<^verbatim>\<open>connect()\<close> fails.
\<close>

theorem C9_not_connected_is_thrown_witness:
  "\<not> connected closed_db
   \<and> FileStore_get closed_db ''k'' = Inl NotConnected
   \<and> FileStore_set closed_db ''k'' (JNum 1) = Inl NotConnected
   \<and> FileStore_find runtime_fragment closed_db ''users'' (Some []) = Inl NotConnected
   \<and> FileStore_deleteFrom runtime_fragment closed_db ''users'' (Some [(''id'', JStr ''u1'')]) = Inl NotConnected
   \<and> \<not> connected blocked_adapter \<and> \<not> fst (FileStore_connect blocked_adapter)
   \<and> FileStore_insert (snd (FileStore_connect blocked_adapter)) ''users'' user1 ''g'' 1
       = Inl NotConnected"
proof -
  have c: "\<not> connected closed_db"
    by (simp add: closed_db_def FileStore_close_def)
  have b: "\<not> connected blocked_adapter \<and> \<not> fst (FileStore_connect blocked_adapter)"
    by code_simp
  note closed = C9_not_connected_is_thrown
      [where a = closed_db and rt = runtime_fragment and key = "''k''" and val = "JNum 1"
         and collection = "''users''" and query = "Some []",
       THEN conjunct1, THEN mp, OF c]
  note closed_delete = C9_not_connected_is_thrown
      [where a = closed_db and rt = runtime_fragment and collection = "''users''"
         and query = "Some [(''id'', JStr ''u1'')]",
       THEN conjunct1, THEN mp, OF c]
  note still = C9_not_connected_is_thrown [where a = blocked_adapter, THEN conjunct2,
      THEN conjunct2, THEN conjunct2, THEN mp, OF b]
  note blocked = C9_not_connected_is_thrown
      [where a = "snd (FileStore_connect blocked_adapter)" and rt = runtime_fragment
         and collection = "''users''" and document = user1 and generated = "''g''" and now = 1,
       THEN conjunct1, THEN mp, OF still]
  show ?thesis
    using c b closed closed_delete blocked by simp
qed

section \<open>The adapter: the key/value round trip\<close>

lemma write_then_read:
  "writeFileSync d p v = Some d1 \<Longrightarrow> is_file d1 p \<and> read_json d1 p = Some v"
  by (auto simp: writeFileSync_def is_file_def is_dir_def read_json_def readFileSync_def
      update_conv split: if_splits)

lemma set_true_then_get:
  assumes s: "FileStore_set a key val = Inr (True, a1)"
  shows "FileStore_get a1 key = Inr val"
proof -
  from s have conn: "connected a"
    by (auto simp: FileStore_set_def split: if_splits)
  from s conn obtain d where w: "writeFileSync (disk a) (key_path a key) val = Some d"
    and a1: "a1 = a\<lparr> disk := d \<rparr>"
    by (auto simp: FileStore_set_def split: option.splits)
  have p: "key_path (a\<lparr> disk := d \<rparr>) key = key_path a key"
    by (simp add: key_path_def keyValueDir_def)
  from write_then_read [OF w] have r: "is_file d (key_path a key)"
    "read_json d (key_path a key) = Some val"
    by simp_all
  show ?thesis
    using conn r by (simp add: FileStore_get_def p a1 existsSync_def)
qed

text \<open>
  Claim C8 as stated fails at the key \<^verbatim>\<open>a/b\<close> on a freshly connected adapter: the key is
  put unescaped in the file path \<^verbatim>\<open>/data/keyvalue/a/b.json\<close>, the directory
  \<^verbatim>\<open>/data/keyvalue/a\<close> does not exist, \<^verbatim>\<open>writeFileSync\<close> throws, \<^verbatim>\<open>set\<close> returns
  \<^verbatim>\<open>false\<close>, and the \<^verbatim>\<open>get\<close> that follows returns \<^verbatim>\<open>null\<close>, not the value.
\<close>

theorem C8_key_with_slash_counterexample:
  "connected fresh_db
   \<and> FileStore_set fresh_db ''a/b'' (JNum 1) = Inr (False, fresh_db)
   \<and> set_then_get fresh_db ''a/b'' (JNum 1) = Inr JNull
   \<and> set_then_get fresh_db ''a/b'' (JNum 1) \<noteq> Inr (JNum 1)"
  by code_simp

text \<open>
  Claim C8, amended. For every key and value, when \<^verbatim>\<open>set(key, value)\<close> on the file-backed
  adapter reports success, the \<^verbatim>\<open>get(key)\<close> that follows returns the value.
\<close>

theorem C8_roundtrip_after_successful_set:
  "FileStore_set a key val = Inr (True, a1) \<Longrightarrow>
   FileStore_get a1 key = Inr val \<and> set_then_get a key val = Inr val"
proof -
  assume s: "FileStore_set a key val = Inr (True, a1)"
  then have "FileStore_get a1 key = Inr val"
    by (rule set_true_then_get)
  then show ?thesis
    using s by (simp add: set_then_get_def)
qed

text \<open>
  The amended claim at the key \<^verbatim>\<open>greeting\<close> and the value
  \<^verbatim>\<open>{text: "hi", tags: [1, null]}\<close> on the freshly connected adapter.
\<close>

theorem C8_roundtrip_after_successful_set_witness:
  "FileStore_set fresh_db ''greeting''
       (JObj [(''text'', JStr ''hi''), (''tags'', JArr [JNum 1, JNull])])
     = Inr (True, snd (projr (FileStore_set fresh_db ''greeting''
         (JObj [(''text'', JStr ''hi''), (''tags'', JArr [JNum 1, JNull])]))))
   \<and> set_then_get fresh_db ''greeting''
       (JObj [(''text'', JStr ''hi''), (''tags'', JArr [JNum 1, JNull])])
     = Inr (JObj [(''text'', JStr ''hi''), (''tags'', JArr [JNum 1, JNull])])"
proof -
  let ?v = "JObj [(''text'', JStr ''hi''), (''tags'', JArr [JNum 1, JNull])]"
  have h: "FileStore_set fresh_db ''greeting'' ?v
             = Inr (True, snd (projr (FileStore_set fresh_db ''greeting'' ?v)))"
    by code_simp
  from C8_roundtrip_after_successful_set [OF h] h show ?thesis
    by simp
qed

section \<open>The adapter: inserting under an identifier that is present\<close>

lemma write_is_dir: "writeFileSync d p v = Some d1 \<Longrightarrow> is_dir d1 q = is_dir d q"
  by (auto simp: writeFileSync_def is_dir_def split: if_splits)

lemma write_keeps_files: "writeFileSync d p v = Some d1 \<Longrightarrow> is_file d q \<Longrightarrow> is_file d1 q"
  by (auto simp: writeFileSync_def is_file_def is_dir_def update_conv split: if_splits)

lemma write_existing_keys:
  assumes "writeFileSync d p v = Some d1" and "is_file d p"
  shows "map fst (fs_files d1) = map fst (fs_files d)"
proof -
  from assms(2) have "map_of (fs_files d) p \<noteq> None"
    by (simp add: is_file_def)
  then have "p \<in> fst ` set (fs_files d)"
    by (simp add: map_of_eq_None_iff)
  then have k: "map fst (AList.update p (Some v) (fs_files d)) = map fst (fs_files d)"
    by (simp add: update_keys)
  from assms(1) have "d1 = d\<lparr> fs_files := AList.update p (Some v) (fs_files d) \<rparr>"
    by (auto simp: writeFileSync_def split: if_splits)
  then show ?thesis
    by (simp add: k)
qed

lemma write_new_keys:
  assumes "writeFileSync d p v = Some d1" and "\<not> is_file d p"
  shows "map fst (fs_files d1) = map fst (fs_files d) @ [p]"
proof -
  from assms have "map_of (fs_files d) p = None"
    by (auto simp: writeFileSync_def is_file_def split: if_splits)
  then have "p \<notin> fst ` set (fs_files d)"
    by (simp add: map_of_eq_None_iff)
  with assms(1) show ?thesis
    by (auto simp: writeFileSync_def update_keys split: if_splits)
qed

lemma readdir_cong:
  assumes "fs_dirs d1 = fs_dirs d"
    and "entries_in dir (filter (\<lambda>p. \<not> is_dir d p) (map fst (fs_files d1)))
         = entries_in dir (filter (\<lambda>p. \<not> is_dir d p) (map fst (fs_files d)))"
  shows "readdirSync d1 dir = readdirSync d dir"
  using assms by (simp add: readdirSync_def is_dir_def)

lemma write_dirs: "writeFileSync d p v = Some d1 \<Longrightarrow> fs_dirs d1 = fs_dirs d"
  by (auto simp: writeFileSync_def split: if_splits)

lemma write_existing_readdir:
  assumes "writeFileSync d p v = Some d1" and "is_file d p"
  shows "readdirSync d1 dir = readdirSync d dir"
  by (rule readdir_cong) (simp_all add: write_dirs [OF assms(1)] write_existing_keys [OF assms])

lemma write_elsewhere_readdir:
  assumes "writeFileSync d p v = Some d1" and "butlast p \<noteq> dir"
  shows "readdirSync d1 dir = readdirSync d dir"
proof (cases "is_file d p")
  case True
  with assms(1) show ?thesis by (rule write_existing_readdir)
next
  case False
  show ?thesis
    by (rule readdir_cong)
       (simp_all add: write_dirs [OF assms(1)] write_new_keys [OF assms(1) False] entries_in_def
          assms(2))
qed

lemma collection_dir_not_dbDir:
  "collection_dir a (normalizeName s) \<noteq> dbDir a"
  by (simp add: collection_dir_def collectionsDir_def path_join_normalized)

lemma createCollection_keeps_listing:
  assumes cc: "FileStore_createCollection a name = Inr (r, a1)"
    and dir: "is_dir (disk a) (collection_dir a (normalizeName name))"
  shows "dbDir a1 = dbDir a"
    and "connected a1 = connected a"
    and "readdirSync (disk a1) (collection_dir a (normalizeName name))
           = readdirSync (disk a) (collection_dir a (normalizeName name))"
    and "is_file (disk a) q \<Longrightarrow> is_file (disk a1) q"
proof -
  let ?cdir = "collection_dir a (normalizeName name)"
  have e: "ensure_dir (disk a) ?cdir = Some (disk a)"
    using dir by (simp add: ensure_dir_def existsSync_def)
  have par: "butlast (collectionsListFile a) \<noteq> ?cdir"
    using collection_dir_not_dbDir [of a name] by (simp add: collectionsListFile_def)
  from cc have conn: "connected a"
    by (auto simp: FileStore_createCollection_def split: if_splits)
  consider (old) "a1 = a"
    | (failed) colls where "a1 = a\<lparr> collections := colls \<rparr>"
    | (written) colls d2 where "a1 = a\<lparr> collections := colls, disk := d2 \<rparr>"
        "writeFileSync (disk a) (collectionsListFile a) (JArr colls) = Some d2"
    using cc conn e
    by (auto simp: FileStore_createCollection_def Let_def split: if_splits option.splits)
  then have all: "dbDir a1 = dbDir a \<and> connected a1 = connected a
      \<and> readdirSync (disk a1) ?cdir = readdirSync (disk a) ?cdir
      \<and> (is_file (disk a) q \<longrightarrow> is_file (disk a1) q)"
  proof cases
    case old
    then show ?thesis by simp
  next
    case failed
    then show ?thesis by simp
  next
    case written
    from written(2) par have "readdirSync d2 ?cdir = readdirSync (disk a) ?cdir"
      by (rule write_elsewhere_readdir)
    moreover have "is_file (disk a) q \<longrightarrow> is_file d2 q"
      using write_keeps_files [OF written(2)] by blast
    ultimately show ?thesis
      using written(1) by simp
  qed
  from all show "dbDir a1 = dbDir a" by simp
  from all show "connected a1 = connected a" by simp
  from all show "readdirSync (disk a1) ?cdir = readdirSync (disk a) ?cdir" by simp
  from all show "is_file (disk a) q \<Longrightarrow> is_file (disk a1) q" by simp
qed

lemma stamped_times:
  "map_of (stamped doc now) ''updated_at'' = Some (JNum now)"
  "map_of (stamped doc now) ''created_at'' = Some (JNum now)"
  by (simp_all add: stamped_def update_conv)

text \<open>
  Claim C2 as stated fails on the creation timestamp. The document \<^verbatim>\<open>u1\<close> is inserted
  at time 1000 and inserted again, under the same identifier, at time 2000: the stored
  replacement has \<^verbatim>\<open>created_at = 2000\<close>, not the 1000 of the first insert, since
  \<^verbatim>\<open>insert\<close> sets \<^verbatim>\<open>created_at\<close> and \<^verbatim>\<open>updated_at\<close> to the clock on every call.
\<close>

theorem C2_created_at_counterexample:
  "FileStore_findOne runtime_fragment users_db ''users'' (Some [(''id'', JStr ''u1'')])
     = Inr (JObj [(''id'', JStr ''u1''), (''age'', JNum 30),
                  (''address'', JObj [(''city'', JStr ''Paris'')]),
                  (''created_at'', JNum 1000), (''updated_at'', JNum 1000)])
   \<and> FileStore_insert users_db ''users'' user1_again ''generated'' 2000 = Inr (True, users_db2)
   \<and> FileStore_findOne runtime_fragment users_db2 ''users'' (Some [(''id'', JStr ''u1'')])
     = Inr (JObj [(''id'', JStr ''u1''), (''age'', JNum 31),
                  (''created_at'', JNum 2000), (''updated_at'', JNum 2000)])
   \<and> own_prop (projr (FileStore_findOne runtime_fragment users_db2 ''users'' (Some [(''id'', JStr ''u1'')])))
         ''created_at'' \<noteq> Some (JNum 1000)"
  by code_simp

text \<open>
  Claim C2, amended. When \<^verbatim>\<open>insert\<close> succeeds for a document whose identifier names a
  file that is present in the collection's directory, the directory lists the same
  entries as before (the number of documents is unchanged), the file holds the inserted
  document, and both \<^verbatim>\<open>updated_at\<close> and \<^verbatim>\<open>created_at\<close> of the stored document are the
  timestamp of the replacing insert.
\<close>

theorem C2_insert_existing_id_replaces:
  assumes ins: "FileStore_insert a collection document generated now = Inr (True, a1)"
    and listing: "readdirSync (disk a) (collection_dir a (normalizeName collection)) = Some names"
    and present: "is_file (disk a)
                    (doc_path a (normalizeName collection) (id_of (with_id document generated)))"
  shows "readdirSync (disk a1) (collection_dir a1 (normalizeName collection)) = Some names
       \<and> read_json (disk a1)
           (doc_path a1 (normalizeName collection) (id_of (with_id document generated)))
           = Some (JObj (stamped (with_id document generated) now))
       \<and> map_of (stamped (with_id document generated) now) ''updated_at'' = Some (JNum now)
       \<and> map_of (stamped (with_id document generated) now) ''created_at'' = Some (JNum now)"
proof -
  let ?nn = "normalizeName collection"
  let ?cdir = "collection_dir a ?nn"
  let ?p = "doc_path a ?nn (id_of (with_id document generated))"
  let ?doc = "JObj (stamped (with_id document generated) now)"
  from ins have conn: "connected a"
    by (auto simp: FileStore_insert_def split: if_splits)
  from listing have dir: "is_dir (disk a) (collection_dir a (normalizeName ?nn))"
    by (auto simp: readdirSync_def normalizeName_idem split: if_splits)
  from ins conn obtain r a0 d where
    cc: "FileStore_createCollection a ?nn = Inr (r, a0)"
    and w: "writeFileSync (disk a0) (doc_path a0 ?nn (id_of (with_id document generated))) ?doc
              = Some d"
    and a1: "a1 = a0\<lparr> disk := d \<rparr>"
    by (auto simp: FileStore_insert_def Let_def split: sum.splits prod.splits option.splits)
  note keep = createCollection_keeps_listing [OF cc dir]
  have paths: "doc_path a0 ?nn = doc_path a ?nn" "collection_dir a0 ?nn = ?cdir"
    using keep(1) by (simp_all add: doc_path_def collection_dir_def collectionsDir_def fun_eq_iff)
  have paths1: "doc_path a1 ?nn = doc_path a ?nn" "collection_dir a1 ?nn = ?cdir"
    using keep(1) a1 by (simp_all add: doc_path_def collection_dir_def collectionsDir_def fun_eq_iff)
  have w': "writeFileSync (disk a0) ?p ?doc = Some d"
    using w by (simp add: paths)
  have f0: "is_file (disk a0) ?p"
    using present by (rule keep(4))
  have l0: "readdirSync (disk a0) ?cdir = Some names"
    using keep(3) listing by (simp add: normalizeName_idem)
  have "readdirSync d ?cdir = readdirSync (disk a0) ?cdir"
    using w' f0 by (rule write_existing_readdir)
  then have 1: "readdirSync (disk a1) (collection_dir a1 ?nn) = Some names"
    using l0 unfolding paths1 by (simp add: a1)
  have 2: "read_json (disk a1) (doc_path a1 ?nn (id_of (with_id document generated))) = Some ?doc"
    using write_then_read [OF w'] unfolding paths1 by (simp add: a1)
  show ?thesis
    using 1 2 by (simp add: stamped_times)
qed

text \<open>The amended claim at the second insert of \<^verbatim>\<open>u1\<close>, at time 2000.\<close>

theorem C2_insert_existing_id_replaces_witness:
  "FileStore_insert users_db ''users'' user1_again ''generated'' 2000 = Inr (True, users_db2)
   \<and> readdirSync (disk users_db) (collection_dir users_db (normalizeName ''users''))
       = Some [''u1.json'']
   \<and> is_file (disk users_db)
         (doc_path users_db (normalizeName ''users'') (id_of (with_id user1_again ''generated'')))
   \<and> readdirSync (disk users_db2) (collection_dir users_db2 (normalizeName ''users''))
       = Some [''u1.json'']
   \<and> read_json (disk users_db2)
         (doc_path users_db2 (normalizeName ''users'') (id_of (with_id user1_again ''generated'')))
       = Some (JObj (stamped (with_id user1_again ''generated'') 2000))
   \<and> map_of (stamped (with_id user1_again ''generated'') 2000) ''created_at''
       = Some (JNum 2000)"
proof -
  have ins: "FileStore_insert users_db ''users'' user1_again ''generated'' 2000
               = Inr (True, users_db2)"
    by code_simp
  have listing: "readdirSync (disk users_db) (collection_dir users_db (normalizeName ''users''))
                   = Some [''u1.json'']"
    by code_simp
  have present: "is_file (disk users_db)
       (doc_path users_db (normalizeName ''users'') (id_of (with_id user1_again ''generated'')))"
    by code_simp
  from C2_insert_existing_id_replaces [OF ins listing present] ins listing present
  show ?thesis
    by simp
qed

section \<open>The adapter: what update writes\<close>

lemma assign_all_map_of:
  "map_of (assign_all target source) = map_of target ++ map_of (rev source)"
  unfolding assign_all_def
proof (induction source arbitrary: target)
  case Nil
  show ?case by simp
next
  case (Cons kv source)
  obtain k v where kv: "kv = (k, v)" by (cases kv)
  have "map_of (foldl (\<lambda>acc (k, v). AList.update k v acc) target (kv # source))
        = map_of (AList.update k v target) ++ map_of (rev source)"
    using Cons.IH [of "AList.update k v target"] by (simp add: kv)
  also have "\<dots> = map_of target ++ map_of (rev (kv # source))"
    by (simp add: kv update_conv' fun_eq_iff map_add_def split: option.splits)
  finally show ?case .
qed

lemma updatedDoc_props:
  "map_of (updatedDoc doc patch now) k =
     (if k = ''updated_at'' then Some (JNum now)
      else case map_of (rev patch) k of
             Some v \<Rightarrow> Some v
           | None \<Rightarrow> map_of (spread doc) k)"
  by (simp add: updatedDoc_def update_conv' assign_all_map_of map_add_def)

lemma write_read_other:
  "writeFileSync d q v = Some d1 \<Longrightarrow> p \<noteq> q \<Longrightarrow> read_json d1 p = read_json d p"
  by (auto simp: writeFileSync_def read_json_def readFileSync_def is_file_def is_dir_def
      update_conv split: if_splits)

lemma found_id_path:
  "found_id doc = Some ident \<Longrightarrow> doc_path a nn ident = found_path a nn doc"
  by (auto simp: found_id_def found_path_def split: if_splits)

lemma update_loop_count:
  "update_loop a nn patch now docs c d = (Some n, d1) \<Longrightarrow> n = c + length docs"
  by (induction a nn patch now docs c d rule: update_loop.induct)
     (auto split: option.splits)

lemma update_loop_other:
  "update_loop a nn patch now docs c d = (Some n, d1) \<Longrightarrow>
   p \<notin> found_path a nn ` set docs \<Longrightarrow> read_json d1 p = read_json d p"
proof (induction a nn patch now docs c d rule: update_loop.induct)
  case (1 a nn patch now c d)
  then show ?case by simp
next
  case (2 a nn patch now doc docs c d)
  from "2.prems"(1) obtain ident d0 where
    i: "found_id doc = Some ident"
    and w: "writeFileSync d (doc_path a nn ident) (JObj (updatedDoc doc patch now)) = Some d0"
    and rest: "update_loop a nn patch now docs (Suc c) d0 = (Some n, d1)"
    by (auto split: option.splits)
  from "2.prems"(2) have ne: "p \<noteq> doc_path a nn ident" and out: "p \<notin> found_path a nn ` set docs"
    using found_id_path [OF i, of a nn] by auto
  have "read_json d1 p = read_json d0 p"
    using "2.IH" [OF i w rest out] .
  also have "\<dots> = read_json d p"
    using w ne by (rule write_read_other)
  finally show ?case .
qed

text \<open>
  After the loop, the file a found document names holds the merge of a found document
  that names the same file: the one the loop wrote last under that name.
\<close>

lemma update_loop_last_writer:
  "update_loop a nn patch now docs c d = (Some n, d1) \<Longrightarrow> doc \<in> set docs \<Longrightarrow>
   \<exists>later \<in> set docs. found_path a nn later = found_path a nn doc
      \<and> read_json d1 (found_path a nn doc) = Some (JObj (updatedDoc later patch now))"
proof (induction a nn patch now docs c d arbitrary: doc rule: update_loop.induct)
  case (1 a nn patch now c d)
  then show ?case by simp
next
  case (2 a nn patch now x docs c d)
  from "2.prems"(1) obtain ident d0 where
    i: "found_id x = Some ident"
    and w: "writeFileSync d (doc_path a nn ident) (JObj (updatedDoc x patch now)) = Some d0"
    and rest: "update_loop a nn patch now docs (Suc c) d0 = (Some n, d1)"
    by (auto split: option.splits)
  show ?case
  proof (cases "found_path a nn doc \<in> found_path a nn ` set docs")
    case True
    then obtain y where y: "y \<in> set docs" "found_path a nn y = found_path a nn doc"
      by auto
    from "2.IH" [OF i w rest y(1)] obtain later where
      l: "later \<in> set docs" "found_path a nn later = found_path a nn y"
         "read_json d1 (found_path a nn y) = Some (JObj (updatedDoc later patch now))"
      by blast
    have "later \<in> set (x # docs) \<and> found_path a nn later = found_path a nn doc
          \<and> read_json d1 (found_path a nn doc) = Some (JObj (updatedDoc later patch now))"
      using l y(2) by simp
    then show ?thesis by blast
  next
    case False
    then have "doc \<notin> set docs"
      by auto
    with "2.prems"(2) have same: "doc = x"
      by simp
    have "read_json d1 (found_path a nn doc) = read_json d0 (found_path a nn doc)"
      using rest False by (rule update_loop_other)
    also have "\<dots> = Some (JObj (updatedDoc x patch now))"
      using write_then_read [OF w] by (simp add: found_id_path [OF i] same)
    finally have "x \<in> set (x # docs) \<and> found_path a nn x = found_path a nn doc
          \<and> read_json d1 (found_path a nn doc) = Some (JObj (updatedDoc x patch now))"
      by (simp add: same)
    then show ?thesis by blast
  qed
qed

text \<open>
  Two found documents that name one file. In the state where the files \<^verbatim>\<open>u1.json\<close> and
  \<^verbatim>\<open>u2.json\<close> both hold a document of identifier \<^verbatim>\<open>s\<close>, \<^verbatim>\<open>update("users", {}, {x: 1})\<close>
  returns 2 and writes \<^verbatim>\<open>s.json\<close> twice: \<^verbatim>\<open>u1.json\<close> is left as it was, and \<^verbatim>\<open>s.json\<close>
  holds the merge of the second document.
\<close>

lemma update_same_file_example:
  "FileStore_find runtime_fragment same_id_db ''users'' (Some [])
     = Inr [user1_renamed, user2_renamed]
   \<and> found_path same_id_db ''users'' user1_renamed = found_path same_id_db ''users'' user2_renamed
   \<and> fst (projr (FileStore_update runtime_fragment same_id_db ''users'' (Some [])
                   [(''x'', JNum 1)] 3500)) = 2
   \<and> read_json (disk (after_update same_id_db ''users'' (Some []) [(''x'', JNum 1)] 3500))
         user1_file = Some user1_renamed
   \<and> read_json (disk (after_update same_id_db ''users'' (Some []) [(''x'', JNum 1)] 3500))
         (found_path same_id_db ''users'' user1_renamed)
       = Some (JObj (updatedDoc user2_renamed [(''x'', JNum 1)] 3500))"
  by code_simp

text \<open>
  Claim C3 as stated fails on dotted keys. \<^verbatim>\<open>update("users", {id: "u1"},
  {"address.city": "Rome"})\<close> on the stored document
  \<^verbatim>\<open>{id: "u1", age: 30, address: {city: "Paris"}, ...}\<close> writes
  \<^verbatim>\<open>{ ...doc, ...update, updated_at: now }\<close>: the document gets a top-level property named
  \<^verbatim>\<open>address.city\<close>, the nested \<^verbatim>\<open>address.city\<close> is still \<^verbatim>\<open>Paris\<close>, and the query
  \<^verbatim>\<open>{"address.city": "Rome"}\<close> does not match the updated document.
\<close>

theorem C3_dotted_key_counterexample:
  "FileStore_update runtime_fragment users_db ''users'' (Some [(''id'', JStr ''u1'')])
       rome_patch 3000
     = Inr (1, users_db3)
   \<and> read_json (disk users_db3) user1_file
     = Some (JObj [(''id'', JStr ''u1''), (''age'', JNum 30),
                   (''address'', JObj [(''city'', JStr ''Paris'')]),
                   (''created_at'', JNum 1000), (''updated_at'', JNum 3000),
                   (''address.city'', JStr ''Rome'')])
   \<and> nested_lookup runtime_fragment
         (case read_json (disk users_db3) user1_file of None \<Rightarrow> Undefined | Some v \<Rightarrow> Data v)
         [''address'', ''city'']
     = Some (Data (JStr ''Paris''))
   \<and> matches runtime_fragment (read_json (disk users_db3) user1_file) (Some rome_patch)
     = Some False"
  by code_simp

text \<open>
  Claim C3, amended. Take a document that the query matches and whose document file,
  the file named by its identifier \<^verbatim>\<open>doc.id || doc._id\<close>, is named by no other matched
  document. When \<^verbatim>\<open>update\<close> reports a positive count, the count is the number of
  matched documents and that file holds \<^verbatim>\<open>{ ...doc, ...update, updated_at: now }\<close>. The
  document written is a shallow merge: \<^verbatim>\<open>updated_at\<close> is the timestamp of the update,
  every other key of the patch, a dotted key included, is a top-level property of that
  literal name with the patch's value, and every other property is the one of the
  document.
\<close>

theorem C3_update_merges_top_level:
  assumes found: "FileStore_find rt a collection query = Inr docs"
    and upd: "FileStore_update rt a collection query patch now = Inr (n, a1)"
    and some: "0 < n"
    and doc: "doc \<in> set docs"
    and own_file: "\<forall>other \<in> set docs.
        found_path a (normalizeName collection) other = found_path a (normalizeName collection) doc
        \<longrightarrow> other = doc"
  shows "n = length docs
       \<and> read_json (disk a1) (found_path a1 (normalizeName collection) doc)
           = Some (JObj (updatedDoc doc patch now))
       \<and> (\<forall>k. map_of (updatedDoc doc patch now) k =
               (if k = ''updated_at'' then Some (JNum now)
                else case map_of (rev patch) k of
                       Some v \<Rightarrow> Some v
                     | None \<Rightarrow> map_of (spread doc) k))"
proof -
  let ?nn = "normalizeName collection"
  from upd found some obtain d where
    loop: "update_loop a ?nn patch now docs 0 (disk a) = (Some n, d)"
    and a1: "a1 = a\<lparr> disk := d \<rparr>"
    by (auto simp: FileStore_update_def Let_def split: if_splits option.splits prod.splits)
  have p: "found_path (a\<lparr> disk := d \<rparr>) ?nn doc = found_path a ?nn doc"
    by (simp add: found_path_def doc_path_def collection_dir_def collectionsDir_def)
  have 1: "n = length docs"
    using update_loop_count [OF loop] by simp
  from update_loop_last_writer [OF loop doc] obtain later where
    l: "later \<in> set docs" "found_path a ?nn later = found_path a ?nn doc"
       "read_json d (found_path a ?nn doc) = Some (JObj (updatedDoc later patch now))"
    by blast
  from own_file l(1) l(2) have "later = doc"
    by blast
  with l(3) have 2: "read_json (disk a1) (found_path a1 ?nn doc)
                       = Some (JObj (updatedDoc doc patch now))"
    by (simp add: a1 p)
  show ?thesis
    using 1 2 updatedDoc_props by blast
qed

text \<open>
  The amended claim at \<^verbatim>\<open>update("users", {}, {"address.city": "Rome"})\<close> on the
  collection that holds \<^verbatim>\<open>u1\<close> and \<^verbatim>\<open>u2\<close>, for the document \<^verbatim>\<open>u1\<close>.
\<close>

theorem C3_update_merges_top_level_witness:
  "FileStore_find runtime_fragment two_users_db ''users'' (Some [])
     = Inr [user1_stored, user2_stored]
   \<and> FileStore_update runtime_fragment two_users_db ''users'' (Some []) rome_patch 3000
       = Inr (2, two_users_db3)
   \<and> found_path two_users_db (normalizeName ''users'') user2_stored
       \<noteq> found_path two_users_db (normalizeName ''users'') user1_stored
   \<and> read_json (disk two_users_db3) (found_path two_users_db3 (normalizeName ''users'') user1_stored)
       = Some (JObj (updatedDoc user1_stored rome_patch 3000))
   \<and> map_of (updatedDoc user1_stored rome_patch 3000) ''address.city'' = Some (JStr ''Rome'')
   \<and> map_of (updatedDoc user1_stored rome_patch 3000) ''address''
       = Some (JObj [(''city'', JStr ''Paris'')])
   \<and> map_of (updatedDoc user1_stored rome_patch 3000) ''updated_at'' = Some (JNum 3000)"
proof -
  have found: "FileStore_find runtime_fragment two_users_db ''users'' (Some [])
                 = Inr [user1_stored, user2_stored]"
    by code_simp
  have upd: "FileStore_update runtime_fragment two_users_db ''users'' (Some []) rome_patch 3000
               = Inr (2, two_users_db3)"
    by code_simp
  have pos: "0 < (2::nat)"
    by simp
  have doc: "user1_stored \<in> set [user1_stored, user2_stored]"
    by simp
  have other: "found_path two_users_db (normalizeName ''users'') user2_stored
                 \<noteq> found_path two_users_db (normalizeName ''users'') user1_stored"
    by code_simp
  then have own_file: "\<forall>other \<in> set [user1_stored, user2_stored].
      found_path two_users_db (normalizeName ''users'') other
        = found_path two_users_db (normalizeName ''users'') user1_stored
      \<longrightarrow> other = user1_stored"
    by simp
  note t = C3_update_merges_top_level [OF found upd pos doc own_file]
  note stored = t [THEN conjunct2, THEN conjunct1]
  note props = t [THEN conjunct2, THEN conjunct2]
  have 1: "map_of (updatedDoc user1_stored rome_patch 3000) ''address.city'' = Some (JStr ''Rome'')"
    using props [THEN spec, of "''address.city''"] by (simp add: rome_patch_def)
  have 2: "map_of (updatedDoc user1_stored rome_patch 3000) ''address''
             = Some (JObj [(''city'', JStr ''Paris'')])"
    using props [THEN spec, of "''address''"] by (simp add: rome_patch_def user1_stored_def)
  have 3: "map_of (updatedDoc user1_stored rome_patch 3000) ''updated_at'' = Some (JNum 3000)"
    using props [THEN spec, of "''updated_at''"] by simp
  show ?thesis
    using found upd other stored 1 2 3 by simp
qed

section \<open>The adapter: find and findOne\<close>

text \<open>
  \<^verbatim>\<open>find\<close> has no direct read: whatever the query, the documents it returns are the
  documents of the full scan that the query accepts.
\<close>

lemma find_scan_filters:
  "find_scan rt d dir query files = Some docs \<Longrightarrow>
   \<exists>everything. find_scan rt d dir None files = Some everything
      \<and> docs = filter (\<lambda>doc. find_accepts rt query doc = Some True) everything"
proof (induction rt d dir query files arbitrary: docs rule: find_scan.induct)
  case (1 rt d dir query)
  then show ?case by simp
next
  case (2 rt d dir query name names)
  have none: "find_accepts rt None doc = Some True" for doc
    by (simp add: find_accepts_def)
  show ?case
  proof (cases "endsWith name ''.json''")
    case False
    with "2.prems" "2.IH"(2) show ?thesis by simp
  next
    case True
    with "2.prems" obtain doc keep rest where
      r: "read_json d (path_join dir name) = Some doc"
      and k: "find_accepts rt query doc = Some keep"
      and s: "find_scan rt d dir query names = Some rest"
      and docs: "docs = (if keep then doc # rest else rest)"
      by (auto split: option.splits)
    from "2.IH"(1) [OF True r k s] obtain everything where
      e: "find_scan rt d dir None names = Some everything"
         "rest = filter (\<lambda>doc. find_accepts rt query doc = Some True) everything"
      by blast
    have "find_scan rt d dir None (name # names) = Some (doc # everything)"
      using True r e(1) by (simp add: none)
    moreover have "docs = filter (\<lambda>doc. find_accepts rt query doc = Some True) (doc # everything)"
      using docs k e(2) by simp
    ultimately show ?thesis by blast
  qed
qed

lemma find_is_filtered_scan:
  assumes "FileStore_find rt a collection query = Inr docs" and "docs \<noteq> []"
  shows "\<exists>everything. FileStore_find rt a collection None = Inr everything
           \<and> docs = filter (\<lambda>doc. find_accepts rt query doc = Some True) everything"
proof -
  let ?dir = "collection_dir a (normalizeName collection)"
  from assms obtain files where
    l: "connected a" "JStr (normalizeName collection) \<in> set (collections a)"
       "readdirSync (disk a) ?dir = Some files"
    and s: "find_scan rt (disk a) ?dir query files = Some docs"
    by (auto simp: FileStore_find_def Let_def split: if_splits option.splits)
  from find_scan_filters [OF s] obtain everything where
    e: "find_scan rt (disk a) ?dir None files = Some everything"
       "docs = filter (\<lambda>doc. find_accepts rt query doc = Some True) everything"
    by blast
  have "FileStore_find rt a collection None = Inr everything"
    using l e(1) by (simp add: FileStore_find_def)
  with e(2) show ?thesis by blast
qed

text \<open>
  In the runtime fragment the matcher rejects \<^verbatim>\<open>{id: "u1", age: 99}\<close> for the stored
  document of \<^verbatim>\<open>u1\<close>, and \<^verbatim>\<open>find\<close> follows a query through an inherited property.
\<close>

lemma matcher_rejects_u1_aged_99:
  "matches runtime_fragment (Some user1_stored) (Some u1_aged_99) = Some False"
  by code_simp

lemma find_by_inherited_property:
  "FileStore_find runtime_fragment users_db ''users''
     (Some [(''constructor.name'', JStr ''Object'')]) = Inr [user1_stored]"
  by code_simp

text \<open>
  Claim C5, at the query \<^verbatim>\<open>{id: "u1", age: 99}\<close> on the collection that holds
  \<^verbatim>\<open>{id: "u1", age: 30, ...}\<close>, in every runtime. The matcher rejects the document, the
  full scan of \<^verbatim>\<open>findOne\<close> finds nothing and \<^verbatim>\<open>find\<close> returns the empty list;
  \<^verbatim>\<open>findOne\<close> takes the direct read of \<^verbatim>\<open>u1.json\<close> and returns the document, whose age
  is 30.
\<close>

theorem C5_findOne_direct_read_skips_matcher:
  "connected users_db
   \<and> findOne_full_scan rt users_db (normalizeName ''users'') (Some u1_aged_99) = JNull
   \<and> FileStore_find rt users_db ''users'' (Some u1_aged_99) = Inr []
   \<and> FileStore_findOne rt users_db ''users'' (Some u1_aged_99) = Inr user1_stored"
  by code_simp

section \<open>The coordinator: cache and storage on set\<close>

lemma cache_after_set:
  "map_of (cache (MemoryCache_set c key val t now)) key = Some val"
  by (simp add: MemoryCache_set_def Let_def update_conv)

text \<open>\<^verbatim>\<open>HyperDB.delete\<close> leaves no cache entry for the key, whatever the adapter answers.\<close>

lemma delete_invalidates_cache:
  "map_of (cache (db_cache (snd (HyperDB_delete db key)))) key = None"
  by (auto simp: HyperDB_delete_def Let_def MemoryCache_delete_def Map_has_def delete_conv
      split: sum.splits prod.splits)

text \<open>
  Claim C1 as stated fails. \<^verbatim>\<open>HyperDB.set("a/b", 1)\<close> on the freshly connected database
  puts the value in the cache first; the adapter then fails to write the file and
  \<^verbatim>\<open>set\<close> returns \<^verbatim>\<open>false\<close>. The cache still holds the value, \<^verbatim>\<open>HyperDB.get\<close> returns it
  from the cache, and the adapter has nothing under the key.
\<close>

theorem C1_cache_holds_unwritten_value_counterexample:
  "fst (HyperDB_set None (HyperDB_new fresh_db) ''a/b'' (JNum 1) 5) = Inr False
   \<and> map_of (cache (db_cache db_after_slash_set)) ''a/b'' = Some (JNum 1)
   \<and> fst (HyperDB_get None db_after_slash_set ''a/b'' 6) = Inr (JNum 1)
   \<and> FileStore_get (db_storage db_after_slash_set) ''a/b'' = Inr JNull"
  by code_simp

text \<open>
  Claim C1, amended. \<^verbatim>\<open>HyperDB.set(key, value)\<close> updates the cache before it calls the
  storage adapter, and the cache keeps the value whatever the adapter answers: success,
  failure or the not-connected error. When the adapter acknowledges the write (\<^verbatim>\<open>set\<close>
  returns \<^verbatim>\<open>true\<close>) and no security transform is configured, the value the cache holds
  for the key is the value the adapter returns for it.
\<close>

theorem C1_cache_updated_whatever_storage_answers:
  "db_cache (snd (HyperDB_set encrypt db key val now))
     = MemoryCache_set (db_cache db) key val None now
   \<and> map_of (cache (db_cache (snd (HyperDB_set encrypt db key val now)))) key = Some val
   \<and> (fst (HyperDB_set None db key val now) = Inr True \<longrightarrow>
        FileStore_get (db_storage (snd (HyperDB_set None db key val now))) key = Inr val)"
proof (intro conjI impI)
  show c: "db_cache (snd (HyperDB_set encrypt db key val now))
             = MemoryCache_set (db_cache db) key val None now"
    by (simp add: HyperDB_set_def Let_def split: sum.splits prod.splits)
  show "map_of (cache (db_cache (snd (HyperDB_set encrypt db key val now)))) key = Some val"
    by (simp only: c cache_after_set)
  assume ok: "fst (HyperDB_set None db key val now) = Inr True"
  then obtain a1 where s: "FileStore_set (db_storage db) key val = Inr (True, a1)"
    and st: "db_storage (snd (HyperDB_set None db key val now)) = a1"
    by (auto simp: HyperDB_set_def Let_def StorageEngine_set_def split: sum.splits prod.splits)
  show "FileStore_get (db_storage (snd (HyperDB_set None db key val now))) key = Inr val"
    using set_true_then_get [OF s] by (simp only: st)
qed

text \<open>
  The amended claim at \<^verbatim>\<open>set("greeting", "hi")\<close> on the freshly connected database.
\<close>

theorem C1_cache_updated_whatever_storage_answers_witness:
  "fst (HyperDB_set None (HyperDB_new fresh_db) ''greeting'' (JStr ''hi'') 5) = Inr True
   \<and> map_of (cache (db_cache db_after_greeting_set)) ''greeting'' = Some (JStr ''hi'')
   \<and> FileStore_get (db_storage db_after_greeting_set) ''greeting'' = Inr (JStr ''hi'')"
proof -
  have ok: "fst (HyperDB_set None (HyperDB_new fresh_db) ''greeting'' (JStr ''hi'') 5) = Inr True"
    by code_simp
  note t = C1_cache_updated_whatever_storage_answers
             [of None "HyperDB_new fresh_db" "''greeting''" "JStr ''hi''" 5]
  note cached = t [THEN conjunct2, THEN conjunct1]
  note stored = t [THEN conjunct2, THEN conjunct2, THEN mp, OF ok]
  show ?thesis
    using ok cached stored by (simp add: db_after_greeting_set_def)
qed

end
